theory Spec2Isabelle
  imports Complex_Main
begin

section \<open>Python helpers used by the chat service\<close>

text \<open>
  Strings are lists of characters; \<open>len\<close> is \<open>length\<close>.  The characters that
  \<open>str.strip\<close> removes are the ones for which \<open>str.isspace\<close> holds; in the code point
  range a \<open>char\<close> covers these are 9..13, 28..32, 133 and 160.
\<close>

definition isspace :: "char \<Rightarrow> bool" where
  "isspace c = (let n = of_char c :: nat in
     (9 \<le> n \<and> n \<le> 13) \<or> (28 \<le> n \<and> n \<le> 32) \<or> n = 133 \<or> n = 160)"

definition strip :: "string \<Rightarrow> string" where
  "strip s = rev (dropWhile isspace (rev (dropWhile isspace s)))"

text \<open>\<open>sep.join(parts)\<close>.\<close>

fun join :: "string \<Rightarrow> string list \<Rightarrow> string" where
  "join sep [] = []"
| "join sep [x] = x"
| "join sep (x # y # ys) = x @ sep @ join sep (y # ys)"

text \<open>\<open>xs[i:]\<close> for a Python integer \<open>i\<close>: a negative \<open>i\<close> counts from the end.\<close>

definition slice_from :: "int \<Rightarrow> 'a list \<Rightarrow> 'a list" where
  "slice_from i xs =
     (if i < 0 then drop (length xs - nat (- i)) xs else drop (nat i) xs)"

text \<open>Truthiness of an optional string: \<open>None\<close> and \<open>""\<close> are falsy.\<close>

fun truthy :: "string option \<Rightarrow> bool" where
  "truthy None = False"
| "truthy (Some s) = (s \<noteq> [])"

section \<open>Data model (chat_module/config.py, chat_module/service.py)\<close>

datatype error = ValueError | RuntimeError | FileNotFoundError | BackendError

record message =
  role :: string
  content :: string

record hit =
  hit_id :: int
  hit_score :: real
  hit_text :: string
  hit_metadata :: "(string \<times> string) list"

record ChatConfig =
  enable_context :: bool
  enable_summarisation :: bool
  enable_intent_tracking :: bool
  context_top_k :: int
  max_history_messages :: int
  system_prompt :: string
  summarise_prompt :: string
  intent_prompt :: string
  max_prompt_tokens :: int

record ChatSessionState =
  session_id :: string
  messages :: "message list"
  summary :: string
  intents :: "string list"
  last_context :: string
  last_retrievals :: "hit list"
  vector_store_dir :: "string option"
  updated_at :: real

text \<open>
  The collaborators of the service.  Each call takes the state of the outside world and
  returns its outcome with the new world, so two calls with the same arguments may
  answer differently; an exception is the \<open>Inl\<close> outcome.  A streaming completion
  answers with the fragments it yields and, when the stream breaks, the exception raised
  after them.  \<open>provider\<close> is \<open>None\<close> when the service was built without a vector store
  provider.
\<close>

record 'w backend =
  llm_complete :: "message list \<Rightarrow> 'w \<Rightarrow> (error + string) \<times> 'w"
  llm_stream :: "message list \<Rightarrow> 'w \<Rightarrow> (string list \<times> error option) \<times> 'w"
  provider ::
    "(string \<Rightarrow> string \<Rightarrow> string \<Rightarrow> int \<Rightarrow> 'w \<Rightarrow> (error + string \<times> hit list) \<times> 'w) option"
  clock :: "'w \<Rightarrow> real \<times> 'w"

datatype call =
    CallRetrieval string string string int
  | CallComplete "message list"
  | CallStream "message list"

text \<open>
  The service: its session dictionary, the outside world, and the log of the calls made
  to the retrieval provider and to the completion client, in order.
\<close>

record 'w ChatService =
  sessions :: "string \<rightharpoonup> ChatSessionState"
  world :: "'w"
  calls :: "call list"

record options =
  opt_vector_store_dir :: "string option"
  opt_top_k :: "int option"
  opt_enable_context :: "bool option"
  opt_enable_summarisation :: "bool option"
  opt_enable_intent_tracking :: "bool option"
  opt_system_prompt :: "string option"

section \<open>The chat service (chat_module/service.py)\<close>

definition client_complete ::
  "'w backend \<Rightarrow> message list \<Rightarrow> 'w ChatService \<Rightarrow> (error + string) \<times> 'w ChatService" where
  "client_complete B msgs sv =
     (let (r, w) = llm_complete B msgs (world sv)
      in (r, sv\<lparr>world := w, calls := calls sv @ [CallComplete msgs]\<rparr>))"

definition client_stream ::
  "'w backend \<Rightarrow> message list \<Rightarrow> 'w ChatService \<Rightarrow> (string list \<times> error option) \<times> 'w ChatService" where
  "client_stream B msgs sv =
     (let (r, w) = llm_stream B msgs (world sv)
      in (r, sv\<lparr>world := w, calls := calls sv @ [CallStream msgs]\<rparr>))"

definition time_now :: "'w backend \<Rightarrow> 'w ChatService \<Rightarrow> real \<times> 'w ChatService" where
  "time_now B sv = (let (t, w) = clock B (world sv) in (t, sv\<lparr>world := w\<rparr>))"

definition flag :: "bool option \<Rightarrow> bool \<Rightarrow> bool" where
  "flag overridden dflt = (case overridden of None \<Rightarrow> dflt | Some b \<Rightarrow> b)"

definition estimate_tokens :: "string \<Rightarrow> int" where
  "estimate_tokens txt = max 1 (int (length txt) div 4)"

definition append_message :: "ChatConfig \<Rightarrow> ChatSessionState \<Rightarrow> message \<Rightarrow> ChatSessionState" where
  "append_message cfg session m =
     (let ms = messages session @ [m]
      in if int (length ms) > max_history_messages cfg
         then session\<lparr>messages := slice_from (- max_history_messages cfg) ms\<rparr>
         else session\<lparr>messages := ms\<rparr>)"

definition system_message :: "string \<Rightarrow> message" where
  "system_message c = \<lparr>role = ''system'', content = c\<rparr>"

definition build_prompt :: "ChatConfig \<Rightarrow> ChatSessionState \<Rightarrow> string \<Rightarrow> string option \<Rightarrow> message list" where
  "build_prompt cfg session context system_prompt_override =
     [system_message (if truthy system_prompt_override then the system_prompt_override
                      else system_prompt cfg)]
     @ (if summary session \<noteq> [] then [system_message (''Conversation summary: '' @ summary session)] else [])
     @ (if context \<noteq> [] then [system_message (''Context for this turn:'' @ [CHR 0x0A] @ context)] else [])
     @ messages session"

definition messages_as_text :: "message list \<Rightarrow> string" where
  "messages_as_text ms = join [CHR 0x0A] (map (\<lambda>m. role m @ '': '' @ content m) ms)"

text \<open>
  The methods below update one session object.  A session object is never replaced in
  the dictionary once created, so the object is named by its key.
\<close>

definition the_session :: "'w ChatService \<Rightarrow> string \<Rightarrow> ChatSessionState" where
  "the_session sv sid = the (sessions sv sid)"

definition put_session :: "string \<Rightarrow> ChatSessionState \<Rightarrow> 'w ChatService \<Rightarrow> 'w ChatService" where
  "put_session sid session sv = sv\<lparr>sessions := (sessions sv)(sid \<mapsto> session)\<rparr>"

definition refresh_summary :: "'w backend \<Rightarrow> ChatConfig \<Rightarrow> string \<Rightarrow> 'w ChatService \<Rightarrow> 'w ChatService" where
  "refresh_summary B cfg sid sv =
     (let summary_messages =
            [system_message (summarise_prompt cfg),
             \<lparr>role = ''user'', content = messages_as_text (messages (the_session sv sid))\<rparr>];
          (r, sv1) = client_complete B summary_messages sv
      in case r of
           Inr s \<Rightarrow> put_session sid ((the_session sv1 sid)\<lparr>summary := s\<rparr>) sv1
         | Inl e \<Rightarrow> sv1)"

definition track_intent :: "'w backend \<Rightarrow> ChatConfig \<Rightarrow> string \<Rightarrow> string \<Rightarrow> 'w ChatService \<Rightarrow> 'w ChatService" where
  "track_intent B cfg sid latest_user_message sv =
     (let intent_messages =
            [system_message (intent_prompt cfg),
             \<lparr>role = ''user'', content = latest_user_message\<rparr>];
          (r, sv1) = client_complete B intent_messages sv
      in case r of
           Inr intent \<Rightarrow>
             if intent \<noteq> []
             then put_session sid
                    ((the_session sv1 sid)\<lparr>intents := intents (the_session sv1 sid) @ [strip intent]\<rparr>) sv1
             else sv1
         | Inl e \<Rightarrow> sv1)"

definition ensure_summary :: "'w backend \<Rightarrow> ChatConfig \<Rightarrow> string \<Rightarrow> 'w ChatService \<Rightarrow> 'w ChatService" where
  "ensure_summary B cfg sid sv =
     (if summary (the_session sv sid) \<noteq> [] then sv else refresh_summary B cfg sid sv)"

definition truncation_marker :: message where
  "truncation_marker =
     system_message ''History was replaced with a summary to fit the context window.''"

definition enforce_prompt_budget ::
  "'w backend \<Rightarrow> ChatConfig \<Rightarrow> string \<Rightarrow> message list \<Rightarrow> int \<Rightarrow> 'w ChatService
     \<Rightarrow> (message list \<times> bool) \<times> 'w ChatService" where
  "enforce_prompt_budget B cfg sid prompt max_tokens sv =
     (if max_tokens \<le> 0 then ((prompt, False), sv)
      else
        let token_count = sum_list (map (\<lambda>msg. estimate_tokens (content msg)) prompt)
        in if token_count \<le> max_tokens then ((prompt, False), sv)
           else
             let sv1 = ensure_summary B cfg sid sv;
                 system_msgs = filter (\<lambda>m. role m = ''system'') prompt;
                 user_msgs = filter (\<lambda>m. role m \<noteq> ''system'') prompt;
                 latest_user = slice_from (- 1) user_msgs;
                 rebuilt = system_msgs
                   @ (if summary (the_session sv1 sid) \<noteq> []
                      then [system_message (''Conversation summary: '' @ summary (the_session sv1 sid))]
                      else [])
                   @ [truncation_marker]
                   @ latest_user
             in ((rebuilt, True), sv1))"

definition create_session :: "'w backend \<Rightarrow> string \<Rightarrow> 'w ChatService \<Rightarrow> 'w ChatService" where
  "create_session B sid sv =
     (let (t, sv1) = time_now B sv
      in put_session sid
           \<lparr>session_id = sid, messages = [], summary = [], intents = [], last_context = [],
            last_retrievals = [], vector_store_dir = None, updated_at = t\<rparr> sv1)"

text \<open>
  One call of the provider's \<open>build_context\<close>, logged.  The \<open>try\<close>/\<open>except\<close> around it
  is in \<open>stream_chat\<close> below.
\<close>

definition provider_call ::
  "(string \<Rightarrow> string \<Rightarrow> string \<Rightarrow> int \<Rightarrow> 'w \<Rightarrow> (error + string \<times> hit list) \<times> 'w)
     \<Rightarrow> string \<Rightarrow> string \<Rightarrow> string \<Rightarrow> int \<Rightarrow> 'w ChatService
     \<Rightarrow> (error + string \<times> hit list) \<times> 'w ChatService" where
  "provider_call f store_dir sid q k sv =
     (let (r, w) = f store_dir sid q k (world sv)
      in (r, sv\<lparr>world := w, calls := calls sv @ [CallRetrieval store_dir sid q k]\<rparr>))"

text \<open>
  The generator object that \<open>stream_chat\<close> returns: the variables its body closes over,
  the reply accumulated so far, and the point where it is suspended.  While the
  \<open>for\<close> loop runs, the suspended point holds what the open completion stream will
  still deliver.
\<close>

datatype gen_point = Start | AfterNotice | Streaming "string list" "error option" | Finished

record generator =
  g_session :: string
  g_message :: string
  g_prompt_messages :: "message list"
  g_truncated :: bool
  g_context_text :: string
  g_retrievals :: "hit list"
  g_enable_summarisation :: "bool option"
  g_enable_intent_tracking :: "bool option"
  g_assistant_reply :: string
  g_point :: gen_point

definition stream_chat ::
  "'w backend \<Rightarrow> ChatConfig \<Rightarrow> string \<Rightarrow> string \<Rightarrow> options \<Rightarrow> 'w ChatService
     \<Rightarrow> (error + generator) \<times> 'w ChatService" where
  "stream_chat B cfg sid msg opts sv =
     (if sid = [] then (Inl ValueError, sv)
      else if msg = [] \<or> strip msg = [] then (Inl ValueError, sv)
      else
        let sv1 = (case sessions sv sid of Some x \<Rightarrow> sv | None \<Rightarrow> create_session B sid sv);
            session = the_session sv1 sid;
            sv2 = put_session sid
                    (session\<lparr>vector_store_dir :=
                       (if truthy (vector_store_dir session) then vector_store_dir session
                        else opt_vector_store_dir opts)\<rparr>) sv1;
            use_context = flag (opt_enable_context opts) (enable_context cfg);
            ((context_text, retrievals), sv3) =
              (if use_context \<and> truthy (opt_vector_store_dir opts) \<and> provider B \<noteq> None
               then
                 let (r, sv') = provider_call (the (provider B)) (the (opt_vector_store_dir opts)) sid msg
                                  (case opt_top_k opts of
                                     None \<Rightarrow> context_top_k cfg
                                   | Some k \<Rightarrow> if k \<noteq> 0 then k else context_top_k cfg) sv2
                 in (case r of Inr cr \<Rightarrow> (cr, sv') | Inl e \<Rightarrow> (([], []), sv'))
               else (([], []), sv2));
            sv4 = put_session sid
                    (append_message cfg (the_session sv3 sid) \<lparr>role = ''user'', content = msg\<rparr>) sv3;
            prompt_messages = build_prompt cfg (the_session sv4 sid) context_text (opt_system_prompt opts);
            ((prompt_messages', truncated), sv5) =
              enforce_prompt_budget B cfg sid prompt_messages (max_prompt_tokens cfg) sv4
        in (Inr \<lparr>g_session = sid, g_message = msg, g_prompt_messages = prompt_messages',
                  g_truncated = truncated, g_context_text = context_text,
                  g_retrievals = retrievals,
                  g_enable_summarisation = opt_enable_summarisation opts,
                  g_enable_intent_tracking = opt_enable_intent_tracking opts,
                  g_assistant_reply = [], g_point = Start\<rparr>, sv5))"

definition notice :: string where
  "notice = ''Note: Some earlier conversation was truncated to fit the context window. ''"

text \<open>The statements of the generator body after its \<open>for\<close> loop.\<close>

definition finalize :: "'w backend \<Rightarrow> ChatConfig \<Rightarrow> generator \<Rightarrow> 'w ChatService \<Rightarrow> 'w ChatService" where
  "finalize B cfg g sv =
     (let sid = g_session g;
          sv1 = put_session sid
                  (append_message cfg (the_session sv sid)
                     \<lparr>role = ''assistant'', content = g_assistant_reply g\<rparr>) sv;
          sv2 = put_session sid ((the_session sv1 sid)\<lparr>last_context := g_context_text g\<rparr>) sv1;
          sv3 = put_session sid ((the_session sv2 sid)\<lparr>last_retrievals := g_retrievals g\<rparr>) sv2;
          (t, sv4) = time_now B sv3;
          sv5 = put_session sid ((the_session sv4 sid)\<lparr>updated_at := t\<rparr>) sv4;
          sv6 = (if flag (g_enable_summarisation g) (enable_summarisation cfg)
                 then refresh_summary B cfg sid sv5 else sv5);
          sv7 = (if flag (g_enable_intent_tracking g) (enable_intent_tracking cfg)
                 then track_intent B cfg sid (g_message g) sv6 else sv6)
      in sv7)"

datatype pull = Yield string | StopIteration | Raise error

text \<open>One iteration of the \<open>for\<close> loop over the open stream, or the end of the loop.\<close>

definition stream_step ::
  "'w backend \<Rightarrow> ChatConfig \<Rightarrow> string list \<Rightarrow> error option \<Rightarrow> generator \<Rightarrow> 'w ChatService
     \<Rightarrow> (pull \<times> generator) \<times> 'w ChatService" where
  "stream_step B cfg tokens err g sv =
     (case tokens of
        t # ts \<Rightarrow>
          ((Yield t, g\<lparr>g_assistant_reply := g_assistant_reply g @ t, g_point := Streaming ts err\<rparr>), sv)
      | [] \<Rightarrow>
          (case err of
             Some e \<Rightarrow> ((Raise e, g\<lparr>g_point := Finished\<rparr>), sv)
           | None \<Rightarrow> ((StopIteration, g\<lparr>g_point := Finished\<rparr>), finalize B cfg g sv)))"

definition open_stream ::
  "'w backend \<Rightarrow> ChatConfig \<Rightarrow> generator \<Rightarrow> 'w ChatService \<Rightarrow> (pull \<times> generator) \<times> 'w ChatService" where
  "open_stream B cfg g sv =
     (let ((tokens, err), sv1) = client_stream B (g_prompt_messages g) sv
      in stream_step B cfg tokens err g sv1)"

text \<open>\<open>next(generator)\<close>: run the body up to its next \<open>yield\<close>, its end, or an exception.\<close>

definition gen_next ::
  "'w backend \<Rightarrow> ChatConfig \<Rightarrow> generator \<Rightarrow> 'w ChatService \<Rightarrow> (pull \<times> generator) \<times> 'w ChatService" where
  "gen_next B cfg g sv =
     (case g_point g of
        Start \<Rightarrow>
          if g_truncated g
          then ((Yield notice,
                 g\<lparr>g_assistant_reply := g_assistant_reply g @ notice, g_point := AfterNotice\<rparr>), sv)
          else open_stream B cfg g sv
      | AfterNotice \<Rightarrow> open_stream B cfg g sv
      | Streaming ts err \<Rightarrow> stream_step B cfg ts err g sv
      | Finished \<Rightarrow> ((StopIteration, g), sv))"

text \<open>
  A consumer that asks for at most \<open>n\<close> elements: the fragments received, and whether the
  generator is still suspended (\<open>Suspended\<close>, the consumer stopped first), ran to its
  end (\<open>Exhausted\<close>) or raised.
\<close>

datatype status = Suspended | Exhausted | Failed error

fun pulls ::
  "'w backend \<Rightarrow> ChatConfig \<Rightarrow> nat \<Rightarrow> generator \<Rightarrow> 'w ChatService
     \<Rightarrow> (string list \<times> status) \<times> generator \<times> 'w ChatService" where
  "pulls B cfg 0 g sv = (([], Suspended), g, sv)"
| "pulls B cfg (Suc n) g sv =
     (case gen_next B cfg g sv of
        ((Yield t, g1), sv1) \<Rightarrow>
          (case pulls B cfg n g1 sv1 of ((out, st), g2, sv2) \<Rightarrow> ((t # out, st), g2, sv2))
      | ((StopIteration, g1), sv1) \<Rightarrow> (([], Exhausted), g1, sv1)
      | ((Raise e, g1), sv1) \<Rightarrow> (([], Failed e), g1, sv1))"

definition get_history :: "'w ChatService \<Rightarrow> string \<Rightarrow> error + ChatSessionState" where
  "get_history sv sid = (case sessions sv sid of None \<Rightarrow> Inl ValueError | Some session \<Rightarrow> Inr session)"

section \<open>The cached vector store manager (load_vectorstore/loader.py)\<close>

text \<open>
  A loader is a handle of type \<open>'h\<close>.  Loading a store from disk, the part of
  \<open>VectorStoreLoader.search\<close> that embeds the query and searches the index, and the
  monotonic clock are the collaborators.  Timestamps are floats, of a type \<open>'t\<close> left
  open: \<open>float_sub\<close> is the subtraction of two floats as Python computes it (with its
  rounding) and \<open>float_gt\<close> the comparison of a float with an integer, so nothing below
  depends on how floating point arithmetic rounds.
\<close>

record ('h, 'w, 't) store_backend =
  load_vector_store :: "'w \<Rightarrow> (error + 'h) \<times> 'w"
  index_search :: "'h \<Rightarrow> string \<Rightarrow> int \<Rightarrow> 'w \<Rightarrow> (error + hit list) \<times> 'w"
  monotonic :: "'w \<Rightarrow> 't \<times> 'w"
  float_sub :: "'t \<Rightarrow> 't \<Rightarrow> 't"
  float_gt :: "'t \<Rightarrow> int \<Rightarrow> bool"

record ('h, 't) CacheEntry =
  loader :: 'h
  last_access :: 't

record ('h, 'w, 't) CachedVectorStoreManager =
  ttl_seconds :: int
  cache :: "string \<rightharpoonup> ('h, 't) CacheEntry"
  store_world :: 'w

definition search ::
  "('h, 'w, 't) store_backend \<Rightarrow> 'h \<Rightarrow> string \<Rightarrow> int \<Rightarrow> 'w \<Rightarrow> (error + hit list) \<times> 'w" where
  "search S h q top_k w =
     (if q = [] then (Inl ValueError, w)
      else if top_k \<le> 0 then (Inl ValueError, w)
      else index_search S h q top_k w)"

definition loader_build_context ::
  "('h, 'w, 't) store_backend \<Rightarrow> 'h \<Rightarrow> string \<Rightarrow> int \<Rightarrow> string \<Rightarrow> 'w \<Rightarrow> (error + string) \<times> 'w" where
  "loader_build_context S h q top_k separator w =
     (let (r, w1) = search S h q top_k w
      in case r of
           Inl e \<Rightarrow> (Inl e, w1)
         | Inr results \<Rightarrow>
             (Inr (join separator (map hit_text (filter (\<lambda>entry. hit_text entry \<noteq> []) results))), w1))"

definition evict_stale ::
  "('h, 'w, 't) store_backend \<Rightarrow> ('h, 'w, 't) CachedVectorStoreManager \<Rightarrow> ('h, 'w, 't) CachedVectorStoreManager" where
  "evict_stale S m =
     (let (now, w) = monotonic S (store_world m)
      in m\<lparr>cache := (\<lambda>sid. case cache m sid of
                               None \<Rightarrow> None
                             | Some entry \<Rightarrow>
                                 if float_gt S (float_sub S now (last_access entry)) (ttl_seconds m) then None
                                 else Some entry),
            store_world := w\<rparr>)"

definition touch ::
  "('h, 'w, 't) store_backend \<Rightarrow> string \<Rightarrow> ('h, 'w, 't) CachedVectorStoreManager \<Rightarrow> ('h, 'w, 't) CachedVectorStoreManager" where
  "touch S sid m =
     (case cache m sid of
        None \<Rightarrow> m
      | Some entry \<Rightarrow>
          let (now, w) = monotonic S (store_world m)
          in m\<lparr>cache := (cache m)(sid \<mapsto> entry\<lparr>last_access := now\<rparr>), store_world := w\<rparr>)"

definition get_loader ::
  "('h, 'w, 't) store_backend \<Rightarrow> ('h, 'w, 't) CachedVectorStoreManager \<Rightarrow> string
     \<Rightarrow> (error + 'h) \<times> ('h, 'w, 't) CachedVectorStoreManager" where
  "get_loader S m sid =
     (if sid = [] then (Inl ValueError, m)
      else
        let m1 = evict_stale S m
        in case cache m1 sid of
             Some entry \<Rightarrow> (Inr (loader entry), touch S sid m1)
           | None \<Rightarrow>
               let (r, w) = load_vector_store S (store_world m1)
               in case r of
                    Inl e \<Rightarrow> (Inl e, m1\<lparr>store_world := w\<rparr>)
                  | Inr h \<Rightarrow>
                      let (now, w') = monotonic S w
                      in (Inr h, m1\<lparr>cache := (cache m1)(sid \<mapsto> \<lparr>loader = h, last_access = now\<rparr>),
                                     store_world := w'\<rparr>))"

record payload =
  p_results :: "hit list"
  p_context :: string

definition query ::
  "('h, 'w, 't) store_backend \<Rightarrow> ('h, 'w, 't) CachedVectorStoreManager \<Rightarrow> string \<Rightarrow> string \<Rightarrow> int
     \<Rightarrow> (error + payload) \<times> ('h, 'w, 't) CachedVectorStoreManager" where
  "query S m sid q top_k =
     (let (r, m1) = get_loader S m sid
      in case r of
           Inl e \<Rightarrow> (Inl e, m1)
         | Inr h \<Rightarrow>
             let (r1, w1) = search S h q top_k (store_world m1)
             in case r1 of
                  Inl e \<Rightarrow> (Inl e, m1\<lparr>store_world := w1\<rparr>)
                | Inr results \<Rightarrow>
                    let (r2, w2) = loader_build_context S h q top_k [CHR 0x0A, CHR 0x0A] w1
                    in case r2 of
                         Inl e \<Rightarrow> (Inl e, m1\<lparr>store_world := w2\<rparr>)
                       | Inr context \<Rightarrow>
                           (Inr \<lparr>p_results = results, p_context = context\<rparr>,
                            touch S sid (m1\<lparr>store_world := w2\<rparr>)))"

section \<open>Concrete instances\<close>

text \<open>
  A store whose clock ticks once per reading, whose loads hand out the current tick as
  the handle and whose searches always find the same three hits, and a manager holding
  one entry that is stale at tick 100 and one that is not.  Its timestamps are whole
  numbers of seconds, on which the subtraction of floats is exact.
\<close>


definition demo_hits :: "hit list" where
  "demo_hits =
     [\<lparr>hit_id = 2, hit_score = 1, hit_text = ''alpha'', hit_metadata = []\<rparr>,
      \<lparr>hit_id = 0, hit_score = 2, hit_text = [], hit_metadata = []\<rparr>,
      \<lparr>hit_id = 5, hit_score = 3, hit_text = ''beta'', hit_metadata = []\<rparr>]"

definition demo_store :: "(nat, nat, int) store_backend" where
  "demo_store = \<lparr>load_vector_store = (\<lambda>w. (Inr w, Suc w)),
                  index_search = (\<lambda>h q k w. (Inr demo_hits, Suc w)),
                  monotonic = (\<lambda>w. (int w, Suc w)),
                  float_sub = (\<lambda>a b. a - b),
                  float_gt = (\<lambda>a k. a > k)\<rparr>"

definition demo_manager :: "(nat, nat, int) CachedVectorStoreManager" where
  "demo_manager = \<lparr>ttl_seconds = 10,
       cache = [''a'' \<mapsto> \<lparr>loader = 0, last_access = 0\<rparr>, ''c'' \<mapsto> \<lparr>loader = 1, last_access = 95\<rparr>],
       store_world = 100\<rparr>"

text \<open>
  A completion backend that always answers, a provider that always finds the context
  \<open>ctx\<close>, and a service holding one session that has a store directory bound.
\<close>

definition demo_backend :: "nat backend" where
  "demo_backend =
     \<lparr>llm_complete = (\<lambda>msgs w. (Inr ''recap'', Suc w)),
      llm_stream = (\<lambda>msgs w. (([''Hel'', ''lo''], None), Suc w)),
      provider = Some (\<lambda>store_dir sid q k w. (Inr (''ctx'', []), Suc w)),
      clock = (\<lambda>w. (real w, Suc w))\<rparr>"

definition demo_config :: ChatConfig where
  "demo_config =
     \<lparr>enable_context = True, enable_summarisation = True, enable_intent_tracking = True,
      context_top_k = 4, max_history_messages = 20, system_prompt = ''sys'',
      summarise_prompt = ''summarise'', intent_prompt = ''intent'', max_prompt_tokens = 30000\<rparr>"

definition demo_options :: options where
  "demo_options =
     \<lparr>opt_vector_store_dir = None, opt_top_k = None, opt_enable_context = None,
      opt_enable_summarisation = None, opt_enable_intent_tracking = None,
      opt_system_prompt = None\<rparr>"

definition demo_session :: ChatSessionState where
  "demo_session =
     \<lparr>session_id = ''s1'',
      messages = [\<lparr>role = ''user'', content = ''first question''\<rparr>,
                  \<lparr>role = ''assistant'', content = ''first answer''\<rparr>],
      summary = [], intents = [''ask''], last_context = [], last_retrievals = [],
      vector_store_dir = Some ''store'', updated_at = 7\<rparr>"

definition demo_service :: "nat ChatService" where
  "demo_service = \<lparr>sessions = [''s1'' \<mapsto> demo_session], world = 100, calls = []\<rparr>"

text \<open>A budget of five units, and a prompt that costs twelve.\<close>

definition tight_config :: ChatConfig where
  "tight_config = demo_config\<lparr>max_prompt_tokens := 5\<rparr>"

definition demo_prompt :: "message list" where
  "demo_prompt =
     [\<lparr>role = ''system'', content = ''sys''\<rparr>,
      \<lparr>role = ''user'', content = ''first question''\<rparr>,
      \<lparr>role = ''assistant'', content = ''first answer''\<rparr>,
      \<lparr>role = ''user'', content = ''and what comes next?''\<rparr>]"

text \<open>
  The generator and the service state that the call
  \<open>stream_chat ''s1'' ''hi''\<close> on the service above produces.
\<close>

definition demo_generator :: generator where
  "demo_generator =
     \<lparr>g_session = ''s1'', g_message = ''hi'',
      g_prompt_messages = [\<lparr>role = ''system'', content = ''sys''\<rparr>,
                           \<lparr>role = ''user'', content = ''first question''\<rparr>,
                           \<lparr>role = ''assistant'', content = ''first answer''\<rparr>,
                           \<lparr>role = ''user'', content = ''hi''\<rparr>],
      g_truncated = False, g_context_text = [], g_retrievals = [],
      g_enable_summarisation = None, g_enable_intent_tracking = None,
      g_assistant_reply = [], g_point = Start\<rparr>"

definition demo_service_called :: "nat ChatService" where
  "demo_service_called =
     \<lparr>sessions = [''s1'' \<mapsto> demo_session\<lparr>messages :=
                      messages demo_session @ [\<lparr>role = ''user'', content = ''hi''\<rparr>]\<rparr>],
      world = 100, calls = []\<rparr>"

text \<open>
  Two readings of a generator used to state how a run ends: the elements it has still to
  yield, and the exception its completion stream ends with, if any.  Before the stream
  is opened both are what the completion client answers in the current world.
\<close>

definition remaining_output :: "'w backend \<Rightarrow> generator \<Rightarrow> 'w ChatService \<Rightarrow> string list" where
  "remaining_output B g sv =
     (case g_point g of
        Start \<Rightarrow> (if g_truncated g then [notice] else [])
                   @ fst (fst (llm_stream B (g_prompt_messages g) (world sv)))
      | AfterNotice \<Rightarrow> fst (fst (llm_stream B (g_prompt_messages g) (world sv)))
      | Streaming ts err \<Rightarrow> ts
      | Finished \<Rightarrow> [])"

definition pending_error :: "'w backend \<Rightarrow> generator \<Rightarrow> 'w ChatService \<Rightarrow> error option" where
  "pending_error B g sv =
     (case g_point g of
        Start \<Rightarrow> snd (fst (llm_stream B (g_prompt_messages g) (world sv)))
      | AfterNotice \<Rightarrow> snd (fst (llm_stream B (g_prompt_messages g) (world sv)))
      | Streaming ts err \<Rightarrow> err
      | Finished \<Rightarrow> None)"

text \<open>
  A configuration whose history cap is zero, a service without sessions, and what the
  call \<open>stream_chat ''s'' ''a''\<close> makes of them.
\<close>

definition zero_config :: ChatConfig where
  "zero_config = demo_config\<lparr>max_history_messages := 0\<rparr>"

definition empty_service :: "nat ChatService" where
  "empty_service = \<lparr>sessions = Map.empty, world = 0, calls = []\<rparr>"

definition zero_generator :: generator where
  "zero_generator =
     \<lparr>g_session = ''s'', g_message = ''a'',
      g_prompt_messages = [\<lparr>role = ''system'', content = ''sys''\<rparr>,
                           \<lparr>role = ''user'', content = ''a''\<rparr>],
      g_truncated = False, g_context_text = [], g_retrievals = [],
      g_enable_summarisation = None, g_enable_intent_tracking = None,
      g_assistant_reply = [], g_point = Start\<rparr>"

definition zero_service_called :: "nat ChatService" where
  "zero_service_called =
     \<lparr>sessions = [''s'' \<mapsto> \<lparr>session_id = ''s'', messages = [\<lparr>role = ''user'', content = ''a''\<rparr>],
                               summary = [], intents = [], last_context = [],
                               last_retrievals = [], vector_store_dir = None, updated_at = 0\<rparr>],
      world = 1, calls = []\<rparr>"

text \<open>
  What the call \<open>stream_chat ''s1'' ''hi''\<close> produces under the budget of five
  units: the prompt is rebuilt and the summary is filled in by the call.
\<close>

definition tight_generator :: generator where
  "tight_generator =
     \<lparr>g_session = ''s1'', g_message = ''hi'',
      g_prompt_messages =
        [\<lparr>role = ''system'', content = ''sys''\<rparr>,
         \<lparr>role = ''system'', content = ''Conversation summary: recap''\<rparr>,
         \<lparr>role = ''system'',
          content = ''History was replaced with a summary to fit the context window.''\<rparr>,
         \<lparr>role = ''user'', content = ''hi''\<rparr>],
      g_truncated = True, g_context_text = [], g_retrievals = [],
      g_enable_summarisation = None, g_enable_intent_tracking = None,
      g_assistant_reply = [], g_point = Start\<rparr>"

definition tight_service_called :: "nat ChatService" where
  "tight_service_called =
     \<lparr>sessions = [''s1'' \<mapsto> demo_session\<lparr>messages :=
                      messages demo_session @ [\<lparr>role = ''user'', content = ''hi''\<rparr>],
                      summary := ''recap''\<rparr>],
      world = 101,
      calls = [CallComplete
                 [\<lparr>role = ''system'', content = ''summarise''\<rparr>,
                  \<lparr>role = ''user'',
                   content = ''user: first question'' @ [CHR 0x0A] @ ''assistant: first answer''
                             @ [CHR 0x0A] @ ''user: hi''\<rparr>]]\<rparr>"

text \<open>
  The prompt that \<open>stream_chat\<close> assembles for a valid call (the value of
  \<open>prompt_messages\<close> after \<open>_build_prompt\<close>, before the budget is enforced): the
  statements of \<open>stream_chat\<close> up to that point, with the same session, retrieval and
  append steps.  It is used to say when a call is over budget.
\<close>

definition assembled_prompt ::
  "'w backend \<Rightarrow> ChatConfig \<Rightarrow> string \<Rightarrow> string \<Rightarrow> options \<Rightarrow> 'w ChatService \<Rightarrow> message list" where
  "assembled_prompt B cfg sid msg opts sv =
     (let sv1 = (case sessions sv sid of Some x \<Rightarrow> sv | None \<Rightarrow> create_session B sid sv);
          session = the_session sv1 sid;
          sv2 = put_session sid
                  (session\<lparr>vector_store_dir :=
                     (if truthy (vector_store_dir session) then vector_store_dir session
                      else opt_vector_store_dir opts)\<rparr>) sv1;
          use_context = flag (opt_enable_context opts) (enable_context cfg);
          ((context_text, retrievals), sv3) =
            (if use_context \<and> truthy (opt_vector_store_dir opts) \<and> provider B \<noteq> None
             then
               let (r, sv') = provider_call (the (provider B)) (the (opt_vector_store_dir opts)) sid msg
                                (case opt_top_k opts of
                                   None \<Rightarrow> context_top_k cfg
                                 | Some k \<Rightarrow> if k \<noteq> 0 then k else context_top_k cfg) sv2
               in (case r of Inr cr \<Rightarrow> (cr, sv') | Inl e \<Rightarrow> (([], []), sv'))
             else (([], []), sv2));
          sv4 = put_session sid
                  (append_message cfg (the_session sv3 sid) \<lparr>role = ''user'', content = msg\<rparr>) sv3
      in build_prompt cfg (the_session sv4 sid) context_text (opt_system_prompt opts))"

text \<open>
  A configuration that keeps two messages, and what the call
  \<open>stream_chat ''s1'' ''hi''\<close> makes of the service above under it: the oldest of the
  three messages is dropped.
\<close>

definition cap2_config :: ChatConfig where
  "cap2_config = demo_config\<lparr>max_history_messages := 2\<rparr>"

definition cap2_generator :: generator where
  "cap2_generator =
     \<lparr>g_session = ''s1'', g_message = ''hi'',
      g_prompt_messages = [\<lparr>role = ''system'', content = ''sys''\<rparr>,
                           \<lparr>role = ''assistant'', content = ''first answer''\<rparr>,
                           \<lparr>role = ''user'', content = ''hi''\<rparr>],
      g_truncated = False, g_context_text = [], g_retrievals = [],
      g_enable_summarisation = None, g_enable_intent_tracking = None,
      g_assistant_reply = [], g_point = Start\<rparr>"

definition cap2_service_called :: "nat ChatService" where
  "cap2_service_called =
     \<lparr>sessions = [''s1'' \<mapsto> demo_session\<lparr>messages :=
                      [\<lparr>role = ''assistant'', content = ''first answer''\<rparr>,
                       \<lparr>role = ''user'', content = ''hi''\<rparr>]\<rparr>],
      world = 100, calls = []\<rparr>"

text \<open>
  A negative history cap with the budget of five units, a call that overrides the system
  prompt with one that alone costs six units, and what that call produces.
\<close>

definition negative_config :: ChatConfig where
  "negative_config = tight_config\<lparr>max_history_messages := - 3\<rparr>"

definition long_prompt_options :: options where
  "long_prompt_options = demo_options\<lparr>opt_system_prompt := Some ''You are a helpful assistant''\<rparr>"

definition negative_generator :: generator where
  "negative_generator =
     \<lparr>g_session = ''s1'', g_message = ''hi'',
      g_prompt_messages =
        [\<lparr>role = ''system'', content = ''You are a helpful assistant''\<rparr>,
         \<lparr>role = ''system'', content = ''Conversation summary: recap''\<rparr>,
         \<lparr>role = ''system'',
          content = ''History was replaced with a summary to fit the context window.''\<rparr>],
      g_truncated = True, g_context_text = [], g_retrievals = [],
      g_enable_summarisation = None, g_enable_intent_tracking = None,
      g_assistant_reply = [], g_point = Start\<rparr>"

definition negative_service_called :: "nat ChatService" where
  "negative_service_called =
     \<lparr>sessions = [''s1'' \<mapsto> demo_session\<lparr>messages := [], summary := ''recap''\<rparr>],
      world = 101,
      calls = [CallComplete
                 [\<lparr>role = ''system'', content = ''summarise''\<rparr>,
                  \<lparr>role = ''user'', content = []\<rparr>]]\<rparr>"

text \<open>Options that supply a store directory other than the one bound to the session.\<close>

definition located_options :: options where
  "located_options = demo_options\<lparr>opt_vector_store_dir := Some ''other''\<rparr>"

section \<open>Verified properties\<close>

subsection \<open>Retrieval handle cache\<close>

lemma get_loader_miss:
  assumes "sid \<noteq> []" and "monotonic S (store_world m) = (now, w1)"
    and "cache m sid = None \<or>
         (\<exists>e. cache m sid = Some e \<and> float_gt S (float_sub S now (last_access e)) (ttl_seconds m))"
  shows "get_loader S m sid =
           (case load_vector_store S w1 of
              (Inl err, w2) \<Rightarrow> (Inl err, (evict_stale S m)\<lparr>store_world := w2\<rparr>)
            | (Inr h, w2) \<Rightarrow>
                (Inr h, (evict_stale S m)
                   \<lparr>cache := (cache (evict_stale S m))
                               (sid \<mapsto> \<lparr>loader = h, last_access = fst (monotonic S w2)\<rparr>),
                    store_world := snd (monotonic S w2)\<rparr>))"
    and "cache (evict_stale S m) sid = None"
    and "store_world (evict_stale S m) = w1"
  using assms
  by (auto simp: get_loader_def evict_stale_def Let_def split: prod.splits option.splits sum.splits)

lemma touch_loader:
  "cache m sid = Some \<lparr>loader = h, last_access = t\<rparr> \<Longrightarrow>
     \<exists>t'. cache (touch S sid m) sid = Some \<lparr>loader = h, last_access = t'\<rparr>"
  by (simp add: touch_def split: prod.splits)

lemma query_after_load:
  assumes g: "get_loader S m sid = (Inr h, m1)"
    and c: "cache m1 sid = Some \<lparr>loader = h, last_access = t\<rparr>"
  shows "\<exists>t'. cache (snd (query S m sid q top_k)) sid = Some \<lparr>loader = h, last_access = t'\<rparr>"
    and "q \<noteq> [] \<Longrightarrow> 0 < top_k \<Longrightarrow>
           (case fst (index_search S h q top_k (store_world m1)) of
              Inl err \<Rightarrow> fst (query S m sid q top_k) = Inl err
            | Inr rs \<Rightarrow> (\<forall>p. fst (query S m sid q top_k) = Inr p \<longrightarrow> p_results p = rs))"
proof -
  have "(\<exists>w. snd (query S m sid q top_k) = touch S sid (m1\<lparr>store_world := w\<rparr>))
        \<or> cache (snd (query S m sid q top_k)) = cache m1"
    using g
    by (auto simp: query_def Let_def split: prod.splits sum.splits)
  moreover have "\<exists>t'. cache (touch S sid (m1\<lparr>store_world := w\<rparr>)) sid = Some \<lparr>loader = h, last_access = t'\<rparr>" for w
    using touch_loader [of "m1\<lparr>store_world := w\<rparr>" sid h t S] c by simp
  ultimately show "\<exists>t'. cache (snd (query S m sid q top_k)) sid = Some \<lparr>loader = h, last_access = t'\<rparr>"
    using c by metis
  show "q \<noteq> [] \<Longrightarrow> 0 < top_k \<Longrightarrow>
           (case fst (index_search S h q top_k (store_world m1)) of
              Inl err \<Rightarrow> fst (query S m sid q top_k) = Inl err
            | Inr rs \<Rightarrow> (\<forall>p. fst (query S m sid q top_k) = Inr p \<longrightarrow> p_results p = rs))"
    using g
    by (auto simp: query_def search_def Let_def split: prod.splits sum.splits)
qed

text \<open>
  C7.  \<open>get_loader\<close> rejects the empty session id without touching the manager.
  Otherwise, with \<open>now\<close> the clock reading taken by the eviction: every entry of
  another session survives exactly when \<open>now - last_access > ttl_seconds\<close>, computed
  as the code computes it, does not hold; a surviving entry of the requested session is
  returned with \<open>last_access\<close> set to the next clock reading; and when the requested
  session has no entry or a stale one, the handle returned is the one a new load
  produces, stored with the clock reading taken after the load (nothing is stored when
  the load raises).  So a stale entry is gone after the next call whichever session it
  is for.  A \<open>query\<close> for a session whose entry is missing or stale goes through the
  same load: it fails with the load's exception, or it leaves the newly loaded handle in
  the cache and searches with that handle.
\<close>

theorem get_loader_ttl_eviction:
  assumes clk: "monotonic S (store_world m) = (now, w1)"
  shows
  "get_loader S m [] = (Inl ValueError, m) \<and>
   (sid \<noteq> [] \<longrightarrow>
      (\<forall>k. k \<noteq> sid \<longrightarrow>
         cache (snd (get_loader S m sid)) k =
           (case cache m k of
              None \<Rightarrow> None
            | Some e \<Rightarrow> if float_gt S (float_sub S now (last_access e)) (ttl_seconds m) then None
                        else Some e)) \<and>
      (\<forall>e. cache m sid = Some e \<and> \<not> float_gt S (float_sub S now (last_access e)) (ttl_seconds m) \<longrightarrow>
         fst (get_loader S m sid) = Inr (loader e) \<and>
         cache (snd (get_loader S m sid)) sid = Some (e\<lparr>last_access := fst (monotonic S w1)\<rparr>)) \<and>
      ((cache m sid = None \<or>
        (\<exists>e. cache m sid = Some e \<and> float_gt S (float_sub S now (last_access e)) (ttl_seconds m))) \<longrightarrow>
         fst (get_loader S m sid) = fst (load_vector_store S w1) \<and>
         cache (snd (get_loader S m sid)) sid =
           (case fst (load_vector_store S w1) of
              Inl err \<Rightarrow> None
            | Inr h \<Rightarrow> Some \<lparr>loader = h,
                             last_access = fst (monotonic S (snd (load_vector_store S w1)))\<rparr>) \<and>
         (case load_vector_store S w1 of
            (Inl err, w2) \<Rightarrow>
              fst (query S m sid q top_k) = Inl err \<and> cache (snd (query S m sid q top_k)) sid = None
          | (Inr h, w2) \<Rightarrow>
              (\<exists>t. cache (snd (query S m sid q top_k)) sid = Some \<lparr>loader = h, last_access = t\<rparr>) \<and>
              (q \<noteq> [] \<and> 0 < top_k \<longrightarrow>
                 (case fst (index_search S h q top_k (snd (monotonic S w2))) of
                    Inl err \<Rightarrow> fst (query S m sid q top_k) = Inl err
                  | Inr rs \<Rightarrow> (\<forall>p. fst (query S m sid q top_k) = Inr p \<longrightarrow> p_results p = rs))))))"
proof -
  have a: "get_loader S m [] = (Inl ValueError, m)"
    by (simp add: get_loader_def)
  have b: "\<forall>k. k \<noteq> sid \<longrightarrow>
         cache (snd (get_loader S m sid)) k =
           (case cache m k of
              None \<Rightarrow> None
            | Some e \<Rightarrow> if float_gt S (float_sub S now (last_access e)) (ttl_seconds m) then None
                        else Some e)"
    if "sid \<noteq> []"
    using clk that
    by (auto simp: get_loader_def evict_stale_def touch_def Let_def
          split: prod.splits option.splits sum.splits)
  have c: "\<forall>e. cache m sid = Some e \<and> \<not> float_gt S (float_sub S now (last_access e)) (ttl_seconds m) \<longrightarrow>
         fst (get_loader S m sid) = Inr (loader e) \<and>
         cache (snd (get_loader S m sid)) sid = Some (e\<lparr>last_access := fst (monotonic S w1)\<rparr>)"
    if "sid \<noteq> []"
    using clk that
    by (auto simp: get_loader_def evict_stale_def touch_def Let_def
          split: prod.splits option.splits sum.splits)
  have d: "(cache m sid = None \<or>
        (\<exists>e. cache m sid = Some e \<and> float_gt S (float_sub S now (last_access e)) (ttl_seconds m))) \<longrightarrow>
         fst (get_loader S m sid) = fst (load_vector_store S w1) \<and>
         cache (snd (get_loader S m sid)) sid =
           (case fst (load_vector_store S w1) of
              Inl err \<Rightarrow> None
            | Inr h \<Rightarrow> Some \<lparr>loader = h,
                             last_access = fst (monotonic S (snd (load_vector_store S w1)))\<rparr>) \<and>
         (case load_vector_store S w1 of
            (Inl err, w2) \<Rightarrow>
              fst (query S m sid q top_k) = Inl err \<and> cache (snd (query S m sid q top_k)) sid = None
          | (Inr h, w2) \<Rightarrow>
              (\<exists>t. cache (snd (query S m sid q top_k)) sid = Some \<lparr>loader = h, last_access = t\<rparr>) \<and>
              (q \<noteq> [] \<and> 0 < top_k \<longrightarrow>
                 (case fst (index_search S h q top_k (snd (monotonic S w2))) of
                    Inl err \<Rightarrow> fst (query S m sid q top_k) = Inl err
                  | Inr rs \<Rightarrow> (\<forall>p. fst (query S m sid q top_k) = Inr p \<longrightarrow> p_results p = rs))))"
    if ne: "sid \<noteq> []"
  proof (rule impI)
    assume miss: "cache m sid = None \<or>
        (\<exists>e. cache m sid = Some e \<and> float_gt S (float_sub S now (last_access e)) (ttl_seconds m))"
    note gm = get_loader_miss [OF ne clk miss]
    obtain r w2 where l: "load_vector_store S w1 = (r, w2)" by (cases "load_vector_store S w1")
    show "fst (get_loader S m sid) = fst (load_vector_store S w1) \<and>
         cache (snd (get_loader S m sid)) sid =
           (case fst (load_vector_store S w1) of
              Inl err \<Rightarrow> None
            | Inr h \<Rightarrow> Some \<lparr>loader = h,
                             last_access = fst (monotonic S (snd (load_vector_store S w1)))\<rparr>) \<and>
         (case load_vector_store S w1 of
            (Inl err, w2) \<Rightarrow>
              fst (query S m sid q top_k) = Inl err \<and> cache (snd (query S m sid q top_k)) sid = None
          | (Inr h, w2) \<Rightarrow>
              (\<exists>t. cache (snd (query S m sid q top_k)) sid = Some \<lparr>loader = h, last_access = t\<rparr>) \<and>
              (q \<noteq> [] \<and> 0 < top_k \<longrightarrow>
                 (case fst (index_search S h q top_k (snd (monotonic S w2))) of
                    Inl err \<Rightarrow> fst (query S m sid q top_k) = Inl err
                  | Inr rs \<Rightarrow> (\<forall>p. fst (query S m sid q top_k) = Inr p \<longrightarrow> p_results p = rs))))"
    proof (cases r)
      case (Inl err)
      then have g: "get_loader S m sid = (Inl err, (evict_stale S m)\<lparr>store_world := w2\<rparr>)"
        using gm(1) l by simp
      then have "query S m sid q top_k = (Inl err, (evict_stale S m)\<lparr>store_world := w2\<rparr>)"
        by (simp add: query_def)
      then show ?thesis using g gm(2) by (simp add: l Inl)
    next
      case (Inr h)
      define m1 where "m1 = (evict_stale S m)
                   \<lparr>cache := (cache (evict_stale S m))
                               (sid \<mapsto> \<lparr>loader = h, last_access = fst (monotonic S w2)\<rparr>),
                    store_world := snd (monotonic S w2)\<rparr>"
      have g: "get_loader S m sid = (Inr h, m1)"
        using gm(1) l Inr by (simp add: m1_def)
      have c1: "cache m1 sid = Some \<lparr>loader = h, last_access = fst (monotonic S w2)\<rparr>"
        by (simp add: m1_def)
      have w: "store_world m1 = snd (monotonic S w2)" by (simp add: m1_def)
      note qa = query_after_load [OF g c1, of q top_k]
      have q1: "\<exists>t. cache (snd (query S m sid q top_k)) sid = Some \<lparr>loader = h, last_access = t\<rparr>"
        by (rule qa(1))
      have q2: "q \<noteq> [] \<and> 0 < top_k \<longrightarrow>
                 (case fst (index_search S h q top_k (snd (monotonic S w2))) of
                    Inl err \<Rightarrow> fst (query S m sid q top_k) = Inl err
                  | Inr rs \<Rightarrow> (\<forall>p. fst (query S m sid q top_k) = Inr p \<longrightarrow> p_results p = rs))"
        using qa(2) unfolding w by blast
      have g1: "fst (get_loader S m sid) = Inr h" using g by simp
      have g2: "cache (snd (get_loader S m sid)) sid
                  = Some \<lparr>loader = h, last_access = fst (monotonic S w2)\<rparr>"
        using g c1 by simp
      show ?thesis
        unfolding l Inr using g1 g2 q1 q2 by (simp del: ex_simps)
    qed
  qed
  show ?thesis
    apply (rule conjI)
     apply (rule a)
    apply (rule impI)
    apply (intro conjI)
      apply (erule b)
     apply (erule c)
    apply (erule d)
    done
qed

theorem get_loader_ttl_eviction_witness:
  "cache (snd (get_loader demo_store demo_manager ''b'')) ''a'' = None \<and>
   cache (snd (get_loader demo_store demo_manager ''b'')) ''c'' = Some \<lparr>loader = 1, last_access = 95\<rparr> \<and>
   fst (get_loader demo_store demo_manager ''c'') = Inr 1 \<and>
   cache (snd (get_loader demo_store demo_manager ''c'')) ''c'' = Some \<lparr>loader = 1, last_access = 101\<rparr> \<and>
   fst (get_loader demo_store demo_manager ''a'') = Inr 101 \<and>
   cache (snd (get_loader demo_store demo_manager ''a'')) ''a'' = Some \<lparr>loader = 101, last_access = 102\<rparr> \<and>
   (\<exists>t. cache (snd (query demo_store (snd (get_loader demo_store demo_manager ''b'')) ''a''
                       ''question'' 3)) ''a'' = Some \<lparr>loader = 104, last_access = t\<rparr>) \<and>
   p_results (projr (fst (query demo_store (snd (get_loader demo_store demo_manager ''b'')) ''a''
                             ''question'' 3))) = demo_hits"
proof -
  have clk0: "monotonic demo_store (store_world demo_manager) = (100, 101)"
    by (simp add: demo_store_def demo_manager_def)
  have m: "snd (get_loader demo_store demo_manager ''b'')
             = \<lparr>ttl_seconds = 10,
                cache = [''c'' \<mapsto> \<lparr>loader = 1, last_access = 95\<rparr>,
                         ''b'' \<mapsto> \<lparr>loader = 101, last_access = 102\<rparr>],
                store_world = 103\<rparr>"
    by (simp add: get_loader_def evict_stale_def demo_store_def demo_manager_def fun_eq_iff)
  have clk: "monotonic demo_store (store_world (snd (get_loader demo_store demo_manager ''b''))) = (103, 104)"
    unfolding m by (simp add: demo_store_def)
  have q: "(\<exists>t. cache (snd (query demo_store (snd (get_loader demo_store demo_manager ''b'')) ''a''
                       ''question'' 3)) ''a'' = Some \<lparr>loader = 104, last_access = t\<rparr>) \<and>
   p_results (projr (fst (query demo_store (snd (get_loader demo_store demo_manager ''b'')) ''a''
                             ''question'' 3))) = demo_hits"
  proof -
    have "\<exists>p. fst (query demo_store (snd (get_loader demo_store demo_manager ''b'')) ''a''
                    ''question'' 3) = Inr p"
      unfolding m
      by (simp add: query_def get_loader_def evict_stale_def touch_def search_def
            loader_build_context_def demo_store_def)
    then obtain p where p: "fst (query demo_store (snd (get_loader demo_store demo_manager ''b''))
                                   ''a'' ''question'' 3) = Inr p"
      by blast
    show ?thesis
      using get_loader_ttl_eviction [OF clk, of "''a''" "''question''" 3] p
      unfolding m by (simp add: demo_store_def)
  qed
  have b: "cache (snd (get_loader demo_store demo_manager ''b'')) ''a'' = None \<and>
      cache (snd (get_loader demo_store demo_manager ''b'')) ''c'' = Some \<lparr>loader = 1, last_access = 95\<rparr>"
    using get_loader_ttl_eviction [OF clk0, of "''b''" "''question''" 3]
    by (simp add: demo_store_def demo_manager_def)
  have c: "fst (get_loader demo_store demo_manager ''c'') = Inr 1 \<and>
   cache (snd (get_loader demo_store demo_manager ''c'')) ''c'' = Some \<lparr>loader = 1, last_access = 101\<rparr>"
    using get_loader_ttl_eviction [OF clk0, of "''c''" "''question''" 3]
    by (simp add: demo_store_def demo_manager_def)
  have a: "fst (get_loader demo_store demo_manager ''a'') = Inr 101 \<and>
   cache (snd (get_loader demo_store demo_manager ''a'')) ''a'' = Some \<lparr>loader = 101, last_access = 102\<rparr>"
    using get_loader_ttl_eviction [OF clk0, of "''a''" "''question''" 3]
    by (simp add: demo_store_def demo_manager_def)
  show ?thesis
    using a b c q by blast
qed

text \<open>
  C10.  When the session's loader is available, the query is not empty, \<open>top_k\<close> is
  positive, the first search succeeds and the second search (the one inside
  \<open>build_context\<close>) finds the same results, \<open>query\<close> returns those results together
  with the context made of their non-empty texts, in rank order, joined by a blank line.
\<close>

theorem query_context_matches_results:
  assumes "get_loader S m sid = (Inr h, m1)"
      and "q \<noteq> []" and "0 < top_k"
      and "index_search S h q top_k (store_world m1) = (Inr results, w1)"
      and "fst (index_search S h q top_k w1) = Inr results"
  shows "fst (query S m sid q top_k) =
           Inr \<lparr>p_results = results,
                p_context = join [CHR 0x0A, CHR 0x0A]
                              (map hit_text (filter (\<lambda>entry. hit_text entry \<noteq> []) results))\<rparr>"
proof -
  obtain w2 where second: "index_search S h q top_k w1 = (Inr results, w2)"
    using assms(5) by (cases "index_search S h q top_k w1") simp
  show ?thesis
    using assms(1-4) second
    by (simp add: query_def search_def loader_build_context_def)
qed

theorem query_context_matches_results_witness:
  "fst (query demo_store demo_manager ''b'' ''question'' 3) =
     Inr \<lparr>p_results = demo_hits, p_context = ''alpha'' @ [CHR 0x0A, CHR 0x0A] @ ''beta''\<rparr>"
proof -
  have a: "get_loader demo_store demo_manager ''b'' =
            (Inr 101, snd (get_loader demo_store demo_manager ''b''))"
    by (simp add: get_loader_def evict_stale_def demo_store_def demo_manager_def)
  have w: "store_world (snd (get_loader demo_store demo_manager ''b'')) = 103"
    by (simp add: get_loader_def evict_stale_def demo_store_def demo_manager_def)
  have b: "index_search demo_store 101 ''question'' 3
             (store_world (snd (get_loader demo_store demo_manager ''b''))) = (Inr demo_hits, 104)"
    by (simp add: w) (simp add: demo_store_def)
  have c: "fst (index_search demo_store 101 ''question'' 3 104) = Inr demo_hits"
    by (simp add: demo_store_def)
  show ?thesis
    using query_context_matches_results [OF a _ _ b c]
    by (simp add: demo_hits_def)
qed

subsection \<open>Evaluation and string helpers\<close>

lemmas service_defs =
  stream_chat_def create_session_def put_session_def the_session_def time_now_def flag_def
  provider_call_def append_message_def slice_from_def build_prompt_def system_message_def
  enforce_prompt_budget_def ensure_summary_def refresh_summary_def track_intent_def
  client_complete_def client_stream_def estimate_tokens_def messages_as_text_def
  truncation_marker_def strip_def isspace_def get_history_def

lemmas generator_defs =
  gen_next_def open_stream_def stream_step_def finalize_def notice_def

lemma strip_empty_iff: "strip s = [] \<longleftrightarrow> list_all isspace s"
proof
  assume "strip s = []"
  then have a: "\<forall>x\<in>set (dropWhile isspace s). isspace x"
    by (simp add: strip_def dropWhile_eq_Nil_conv)
  have "dropWhile isspace s = []"
  proof (rule ccontr)
    assume ne: "dropWhile isspace s \<noteq> []"
    then have "\<not> isspace (hd (dropWhile isspace s))" by (rule hd_dropWhile)
    moreover have "hd (dropWhile isspace s) \<in> set (dropWhile isspace s)" using ne by simp
    ultimately show False using a by blast
  qed
  then show "list_all isspace s"
    by (simp add: dropWhile_eq_Nil_conv list_all_iff)
next
  assume "list_all isspace s"
  then have d: "dropWhile isspace s = []"
    by (simp add: dropWhile_eq_Nil_conv list_all_iff)
  show "strip s = []"
    by (simp only: strip_def d rev.simps dropWhile.simps)
qed

subsection \<open>Input validation\<close>

text \<open>
  C5 (as amended).  \<open>stream_chat\<close> raises \<open>ValueError\<close> when the session id is empty
  or the message is empty or consists of whitespace only, and then the service is left
  exactly as it was: no session is created or changed and no call is logged.  Every
  other call returns a generator; a session id made of whitespace is accepted.
\<close>

theorem stream_chat_validation:
  "(sid = [] \<or> list_all isspace msg \<longrightarrow> stream_chat B cfg sid msg opts sv = (Inl ValueError, sv)) \<and>
   (sid \<noteq> [] \<and> \<not> list_all isspace msg \<longrightarrow> (\<exists>g. fst (stream_chat B cfg sid msg opts sv) = Inr g))"
  by (auto simp: stream_chat_def strip_empty_iff Let_def split: prod.splits)

theorem stream_chat_validation_witness:
  "stream_chat demo_backend demo_config [] ''hi'' demo_options demo_service = (Inl ValueError, demo_service) \<and>
   stream_chat demo_backend demo_config ''s1'' [CHR '' '', CHR 0x09] demo_options demo_service
     = (Inl ValueError, demo_service) \<and>
   (\<exists>g. fst (stream_chat demo_backend demo_config ''s1'' ''hi'' demo_options demo_service) = Inr g)"
  using stream_chat_validation [of "[]" "''hi''" demo_backend demo_config demo_options demo_service]
        stream_chat_validation [of "''s1''" "[CHR '' '', CHR 0x09]" demo_backend demo_config demo_options demo_service]
        stream_chat_validation [of "''s1''" "''hi''" demo_backend demo_config demo_options demo_service]
  by (simp add: isspace_def)

text \<open>
  C5 as stated fails: the session id of two spaces is whitespace only, yet the call
  returns a generator and creates a session under that id.
\<close>

theorem stream_chat_blank_session_id_counterexample:
  "list_all isspace ''  '' \<and> strip ''  '' = [] \<and>
   \<not> isl (fst (stream_chat demo_backend demo_config ''  '' ''hi'' demo_options demo_service)) \<and>
   sessions (snd (stream_chat demo_backend demo_config ''  '' ''hi'' demo_options demo_service)) ''  '' \<noteq> None"
  by (simp add: service_defs Let_def demo_backend_def demo_config_def demo_options_def
        demo_service_def)

subsection \<open>Budget enforcement\<close>

lemma slice_last: "slice_from (- 1) xs = (if xs = [] then [] else [last xs])"
  by (cases xs rule: rev_cases) (simp_all add: slice_from_def)

lemma refresh_summary_messages:
  "messages (the_session (refresh_summary B cfg sid sv) sid) = messages (the_session sv sid)"
  by (simp add: refresh_summary_def client_complete_def put_session_def the_session_def Let_def
        split: prod.splits sum.splits)

lemma refresh_summary_others:
  "k \<noteq> sid \<Longrightarrow> sessions (refresh_summary B cfg sid sv) k = sessions sv k"
  by (simp add: refresh_summary_def client_complete_def put_session_def the_session_def Let_def
        split: prod.splits sum.splits)

lemma ensure_summary_messages:
  "messages (the_session (ensure_summary B cfg sid sv) sid) = messages (the_session sv sid)"
  by (simp add: ensure_summary_def refresh_summary_messages)

lemma ensure_summary_others:
  "k \<noteq> sid \<Longrightarrow> sessions (ensure_summary B cfg sid sv) k = sessions sv k"
  by (simp add: ensure_summary_def refresh_summary_others)

text \<open>
  C3.  With the cost of a message \<open>max(1, len(content) // 4)\<close> and the cost of a prompt
  the sum over its messages: when \<open>max_tokens \<le> 0\<close> or the cost is within
  \<open>max_tokens\<close>, the prompt comes back unchanged with the flag false and nothing else
  happens.  Otherwise the summary is ensured (kept when non-empty; else requested from
  the completion client, and a failure of that request changes no session) and the
  result is the system messages of the prompt, then the summary note when the summary
  is now non-empty, then the fixed notice message, then the last non-system message of
  the prompt, with the flag true.  The stored messages of the session and every other
  session are as before.
\<close>

theorem enforce_prompt_budget_spec:
  "(max_tokens \<le> 0 \<or> (\<Sum>m\<leftarrow>prompt. max 1 (int (length (content m)) div 4)) \<le> max_tokens \<longrightarrow>
      enforce_prompt_budget B cfg sid prompt max_tokens sv = ((prompt, False), sv)) \<and>
   (0 < max_tokens \<and> max_tokens < (\<Sum>m\<leftarrow>prompt. max 1 (int (length (content m)) div 4)) \<longrightarrow>
      enforce_prompt_budget B cfg sid prompt max_tokens sv =
        ((filter (\<lambda>m. role m = ''system'') prompt
          @ (if summary (the_session (ensure_summary B cfg sid sv) sid) \<noteq> []
             then [\<lparr>role = ''system'',
                    content = ''Conversation summary: ''
                              @ summary (the_session (ensure_summary B cfg sid sv) sid)\<rparr>]
             else [])
          @ [\<lparr>role = ''system'',
              content = ''History was replaced with a summary to fit the context window.''\<rparr>]
          @ (if filter (\<lambda>m. role m \<noteq> ''system'') prompt = [] then []
             else [last (filter (\<lambda>m. role m \<noteq> ''system'') prompt)]),
          True),
         ensure_summary B cfg sid sv) \<and>
      messages (the_session (ensure_summary B cfg sid sv) sid) = messages (the_session sv sid) \<and>
      (\<forall>k. k \<noteq> sid \<longrightarrow> sessions (ensure_summary B cfg sid sv) k = sessions sv k) \<and>
      (summary (the_session sv sid) \<noteq> [] \<longrightarrow> ensure_summary B cfg sid sv = sv) \<and>
      (summary (the_session sv sid) = [] \<longrightarrow>
         (case fst (llm_complete B
                      [\<lparr>role = ''system'', content = summarise_prompt cfg\<rparr>,
                       \<lparr>role = ''user'', content = messages_as_text (messages (the_session sv sid))\<rparr>]
                      (world sv)) of
            Inl e \<Rightarrow> sessions (ensure_summary B cfg sid sv) = sessions sv
          | Inr s \<Rightarrow> summary (the_session (ensure_summary B cfg sid sv) sid) = s)))"
proof -
  have cost: "(\<Sum>m\<leftarrow>prompt. max 1 (int (length (content m)) div 4))
                = sum_list (map (\<lambda>msg. estimate_tokens (content msg)) prompt)"
    by (simp add: estimate_tokens_def)
  have a: "max_tokens \<le> 0 \<or> sum_list (map (\<lambda>msg. estimate_tokens (content msg)) prompt) \<le> max_tokens \<longrightarrow>
      enforce_prompt_budget B cfg sid prompt max_tokens sv = ((prompt, False), sv)"
    by (simp add: enforce_prompt_budget_def Let_def)
  have b: "0 < max_tokens \<and> max_tokens < sum_list (map (\<lambda>msg. estimate_tokens (content msg)) prompt) \<longrightarrow>
      enforce_prompt_budget B cfg sid prompt max_tokens sv =
        ((filter (\<lambda>m. role m = ''system'') prompt
          @ (if summary (the_session (ensure_summary B cfg sid sv) sid) \<noteq> []
             then [\<lparr>role = ''system'',
                    content = ''Conversation summary: ''
                              @ summary (the_session (ensure_summary B cfg sid sv) sid)\<rparr>]
             else [])
          @ [\<lparr>role = ''system'',
              content = ''History was replaced with a summary to fit the context window.''\<rparr>]
          @ (if filter (\<lambda>m. role m \<noteq> ''system'') prompt = [] then []
             else [last (filter (\<lambda>m. role m \<noteq> ''system'') prompt)]),
          True),
         ensure_summary B cfg sid sv)"
    by (simp add: enforce_prompt_budget_def Let_def slice_last system_message_def
          truncation_marker_def)
  have c: "summary (the_session sv sid) \<noteq> [] \<longrightarrow> ensure_summary B cfg sid sv = sv"
    by (simp add: ensure_summary_def)
  have d: "summary (the_session sv sid) = [] \<longrightarrow>
         (case fst (llm_complete B
                      [\<lparr>role = ''system'', content = summarise_prompt cfg\<rparr>,
                       \<lparr>role = ''user'', content = messages_as_text (messages (the_session sv sid))\<rparr>]
                      (world sv)) of
            Inl e \<Rightarrow> sessions (ensure_summary B cfg sid sv) = sessions sv
          | Inr s \<Rightarrow> summary (the_session (ensure_summary B cfg sid sv) sid) = s)"
    by (simp add: ensure_summary_def refresh_summary_def client_complete_def put_session_def
          the_session_def system_message_def Let_def split: prod.splits sum.splits)
  show ?thesis
    unfolding cost
    using a b c d ensure_summary_messages [of B cfg sid sv] ensure_summary_others [of _ sid B cfg sv]
    by blast
qed

theorem enforce_prompt_budget_spec_witness:
  "enforce_prompt_budget demo_backend tight_config ''s1'' demo_prompt 0 demo_service
     = ((demo_prompt, False), demo_service) \<and>
   enforce_prompt_budget demo_backend tight_config ''s1'' demo_prompt 12 demo_service
     = ((demo_prompt, False), demo_service) \<and>
   fst (enforce_prompt_budget demo_backend tight_config ''s1'' demo_prompt 5 demo_service)
     = ([\<lparr>role = ''system'', content = ''sys''\<rparr>,
         \<lparr>role = ''system'', content = ''Conversation summary: recap''\<rparr>,
         \<lparr>role = ''system'',
          content = ''History was replaced with a summary to fit the context window.''\<rparr>,
         \<lparr>role = ''user'', content = ''and what comes next?''\<rparr>], True) \<and>
   messages (the_session (ensure_summary demo_backend tight_config ''s1'' demo_service) ''s1'')
     = messages demo_session"
  using enforce_prompt_budget_spec [of 0 demo_prompt demo_backend tight_config "''s1''" demo_service]
        enforce_prompt_budget_spec [of 12 demo_prompt demo_backend tight_config "''s1''" demo_service]
        enforce_prompt_budget_spec [of 5 demo_prompt demo_backend tight_config "''s1''" demo_service]
  by (simp add: demo_prompt_def demo_service_def demo_session_def demo_backend_def
        tight_config_def demo_config_def service_defs)

subsection \<open>Frame lemmas for the session dictionary and the generator\<close>

lemma refresh_summary_sessions:
  assumes "sessions sv sid = Some x"
  shows "\<exists>t. sessions (refresh_summary B cfg sid sv) = (sessions sv)(sid \<mapsto> x\<lparr>summary := t\<rparr>)"
proof -
  have "sessions (refresh_summary B cfg sid sv) = sessions sv \<or>
        (\<exists>s. sessions (refresh_summary B cfg sid sv) = (sessions sv)(sid \<mapsto> x\<lparr>summary := s\<rparr>))"
    using assms
    by (auto simp: refresh_summary_def client_complete_def put_session_def the_session_def Let_def
          split: prod.splits sum.splits)
  moreover have "sessions sv = (sessions sv)(sid \<mapsto> x\<lparr>summary := summary x\<rparr>)"
    using assms by (simp add: fun_upd_idem)
  ultimately show ?thesis by metis
qed

lemma track_intent_sessions:
  assumes "sessions sv sid = Some x"
  shows "\<exists>t. sessions (track_intent B cfg sid msg sv) = (sessions sv)(sid \<mapsto> x\<lparr>intents := t\<rparr>)"
proof -
  have "sessions (track_intent B cfg sid msg sv) = sessions sv \<or>
        (\<exists>i. sessions (track_intent B cfg sid msg sv) = (sessions sv)(sid \<mapsto> x\<lparr>intents := intents x @ [i]\<rparr>))"
    using assms
    by (auto simp: track_intent_def client_complete_def put_session_def the_session_def Let_def
          split: prod.splits sum.splits)
  moreover have "sessions sv = (sessions sv)(sid \<mapsto> x\<lparr>intents := intents x\<rparr>)"
    using assms by (simp add: fun_upd_idem)
  ultimately show ?thesis by metis
qed

lemma ensure_summary_sessions:
  assumes "sessions sv sid = Some x"
  shows "\<exists>t. sessions (ensure_summary B cfg sid sv) = (sessions sv)(sid \<mapsto> x\<lparr>summary := t\<rparr>)"
proof (cases "summary (the_session sv sid) \<noteq> []")
  case True
  then have "sessions (ensure_summary B cfg sid sv) = (sessions sv)(sid \<mapsto> x\<lparr>summary := summary x\<rparr>)"
    using assms by (simp add: ensure_summary_def fun_upd_idem)
  then show ?thesis by blast
next
  case False
  then show ?thesis
    using refresh_summary_sessions [OF assms] by (simp add: ensure_summary_def)
qed

lemma enforce_prompt_budget_sessions:
  assumes "sessions sv sid = Some x"
  shows "\<exists>t. sessions (snd (enforce_prompt_budget B cfg sid p mt sv)) = (sessions sv)(sid \<mapsto> x\<lparr>summary := t\<rparr>)"
proof -
  have "snd (enforce_prompt_budget B cfg sid p mt sv) = sv \<or>
        snd (enforce_prompt_budget B cfg sid p mt sv) = ensure_summary B cfg sid sv"
    by (simp add: enforce_prompt_budget_def Let_def)
  moreover have "sessions sv = (sessions sv)(sid \<mapsto> x\<lparr>summary := summary x\<rparr>)"
    using assms by (simp add: fun_upd_idem)
  ultimately show ?thesis
    using ensure_summary_sessions [OF assms, of B cfg] by metis
qed

lemma finalize_point [simp]: "finalize B cfg (g\<lparr>g_point := p\<rparr>) sv = finalize B cfg g sv"
  by (simp add: finalize_def Let_def split: prod.splits)

lemma client_stream_sessions [simp]:
  "sessions (snd (client_stream B msgs sv)) = sessions sv"
  by (simp add: client_stream_def split: prod.splits)

lemma gen_next_yield:
  assumes "gen_next B cfg g sv = ((Yield t, g'), sv')"
  shows "sessions sv' = sessions sv \<and>
         (\<exists>p. p \<noteq> Finished \<and> g' = g\<lparr>g_assistant_reply := g_assistant_reply g @ t, g_point := p\<rparr>)"
  using assms
  by (auto simp: gen_next_def open_stream_def stream_step_def client_stream_def Let_def
        split: gen_point.splits list.splits option.splits prod.splits if_splits)

lemma gen_next_stop:
  assumes "gen_next B cfg g sv = ((StopIteration, g'), sv')" and "g_point g \<noteq> Finished"
  shows "\<exists>sv0. sessions sv0 = sessions sv \<and> sv' = finalize B cfg g sv0"
proof -
  have "sv' = finalize B cfg g sv \<or>
        sv' = finalize B cfg g (snd (client_stream B (g_prompt_messages g) sv))"
    using assms
    by (auto simp: gen_next_def open_stream_def stream_step_def Let_def
          split: gen_point.splits list.splits option.splits prod.splits if_splits)
  then show ?thesis
    using client_stream_sessions [of B "g_prompt_messages g" sv] by blast
qed

lemma pulls_suspended_sessions:
  "pulls B cfg n g sv = ((out, Suspended), g', sv') \<Longrightarrow> sessions sv' = sessions sv"
proof (induction n arbitrary: g sv out)
  case 0
  then show ?case by simp
next
  case (Suc n)
  obtain r g1 sv1 where step: "gen_next B cfg g sv = ((r, g1), sv1)"
    by (metis prod.exhaust)
  show ?case
  proof (cases r)
    case (Yield t)
    then obtain out1 where "pulls B cfg n g1 sv1 = ((out1, Suspended), g', sv')"
      using Suc.prems step by (auto split: prod.splits)
    then have "sessions sv' = sessions sv1" by (rule Suc.IH)
    then show ?thesis using gen_next_yield [of B cfg g sv t g1 sv1] step Yield by simp
  next
    case StopIteration
    then show ?thesis using Suc.prems step by simp
  next
    case (Raise e)
    then show ?thesis using Suc.prems step by simp
  qed
qed

lemma pulls_exhausted_finalize:
  "pulls B cfg n g sv = ((out, Exhausted), g', sv') \<Longrightarrow> g_point g \<noteq> Finished \<Longrightarrow>
     \<exists>sv0. sessions sv0 = sessions sv \<and>
           sv' = finalize B cfg (g\<lparr>g_assistant_reply := g_assistant_reply g @ concat out\<rparr>) sv0"
proof (induction n arbitrary: g sv out)
  case 0
  then show ?case by simp
next
  case (Suc n)
  obtain r g1 sv1 where step: "gen_next B cfg g sv = ((r, g1), sv1)"
    by (metis prod.exhaust)
  show ?case
  proof (cases r)
    case (Yield t)
    from step Yield obtain p where y: "sessions sv1 = sessions sv" "p \<noteq> Finished"
      "g1 = g\<lparr>g_assistant_reply := g_assistant_reply g @ t, g_point := p\<rparr>"
      using gen_next_yield [of B cfg g sv t g1 sv1] by auto
    obtain out1 where rest: "pulls B cfg n g1 sv1 = ((out1, Exhausted), g', sv')" and o: "out = t # out1"
      using Suc.prems(1) step Yield by (auto split: prod.splits)
    have "g_point g1 \<noteq> Finished" using y by simp
    from Suc.IH [OF rest this] obtain sv0 where
      s0: "sessions sv0 = sessions sv1"
      and f: "sv' = finalize B cfg (g1\<lparr>g_assistant_reply := g_assistant_reply g1 @ concat out1\<rparr>) sv0"
      by blast
    have "g1\<lparr>g_assistant_reply := g_assistant_reply g1 @ concat out1\<rparr>
            = (g\<lparr>g_assistant_reply := g_assistant_reply g @ concat out\<rparr>)\<lparr>g_point := p\<rparr>"
      by (simp add: y(3) o)
    then have "sv' = finalize B cfg (g\<lparr>g_assistant_reply := g_assistant_reply g @ concat out\<rparr>) sv0"
      using f by simp
    then show ?thesis using s0 y(1) by auto
  next
    case StopIteration
    then have "out = []" "sv' = sv1"
      using Suc.prems(1) step by auto
    then show ?thesis
      using gen_next_stop [of B cfg g sv g1 sv1] step StopIteration Suc.prems(2) by auto
  next
    case (Raise e)
    then show ?thesis using Suc.prems(1) step by auto
  qed
qed

lemma finalize_session:
  assumes "sessions sv (g_session g) = Some x"
  shows "\<exists>y. sessions (finalize B cfg g sv) (g_session g) = Some y \<and>
           messages y = messages (append_message cfg x \<lparr>role = ''assistant'', content = g_assistant_reply g\<rparr>) \<and>
           last_context y = g_context_text g \<and> last_retrievals y = g_retrievals g \<and>
           updated_at y = fst (clock B (world sv)) \<and>
           session_id y = session_id x \<and> vector_store_dir y = vector_store_dir x"
proof -
  define sid where "sid = g_session g"
  define x5 where "x5 = (append_message cfg x \<lparr>role = ''assistant'', content = g_assistant_reply g\<rparr>)
       \<lparr>last_context := g_context_text g, last_retrievals := g_retrievals g,
        updated_at := fst (clock B (world sv))\<rparr>"
  define sv5 where "sv5 = sv\<lparr>world := snd (clock B (world sv)), sessions := (sessions sv)(sid \<mapsto> x5)\<rparr>"
  define sv6 where "sv6 = (if flag (g_enable_summarisation g) (enable_summarisation cfg)
                 then refresh_summary B cfg sid sv5 else sv5)"
  define sv7 where "sv7 = (if flag (g_enable_intent_tracking g) (enable_intent_tracking cfg)
                 then track_intent B cfg sid (g_message g) sv6 else sv6)"
  have f: "finalize B cfg g sv = sv7"
    using assms
    by (simp add: finalize_def Let_def put_session_def the_session_def time_now_def sv7_def sv6_def
          sv5_def x5_def sid_def split: prod.splits)
  have s5: "sessions sv5 sid = Some x5" by (simp add: sv5_def)
  obtain t where s6: "sessions sv6 sid = Some (x5\<lparr>summary := t\<rparr>)"
  proof (cases "flag (g_enable_summarisation g) (enable_summarisation cfg)")
    case True
    then show ?thesis
      using refresh_summary_sessions [OF s5, of B cfg] that by (auto simp: sv6_def)
  next
    case False
    then have "sessions sv6 sid = Some (x5\<lparr>summary := summary x5\<rparr>)"
      using s5 by (simp add: sv6_def)
    then show ?thesis using that by blast
  qed
  obtain i where s7: "sessions sv7 sid = Some (x5\<lparr>summary := t, intents := i\<rparr>)"
  proof (cases "flag (g_enable_intent_tracking g) (enable_intent_tracking cfg)")
    case True
    then show ?thesis
      using track_intent_sessions [OF s6, of B cfg "g_message g"] that by (auto simp: sv7_def)
  next
    case False
    then have "sessions sv7 sid = Some (x5\<lparr>summary := t, intents := intents x5\<rparr>)"
      using s6 by (simp add: sv7_def)
    then show ?thesis using that by blast
  qed
  show ?thesis
    unfolding f using s7
    by (simp add: sid_def x5_def append_message_def Let_def)
qed

lemma finalize_others:
  assumes "k \<noteq> g_session g"
  shows "sessions (finalize B cfg g sv) k = sessions sv k"
proof -
  have r: "\<And>s. sessions (refresh_summary B cfg (g_session g) s) k = sessions s k"
    using assms by (simp add: refresh_summary_others)
  have t: "\<And>s. sessions (track_intent B cfg (g_session g) (g_message g) s) k = sessions s k"
    using assms
    by (simp add: track_intent_def client_complete_def put_session_def Let_def
          split: prod.splits sum.splits)
  show ?thesis
    using assms
    by (simp add: finalize_def Let_def r t put_session_def time_now_def split: prod.splits)
qed

subsection \<open>What a call of \<open>stream_chat\<close> does before it returns\<close>

lemma the_session_put [simp]: "the_session (put_session sid x sv) sid = x"
  by (simp add: the_session_def put_session_def)

lemma stream_chat_unfold:
  assumes v: "sid \<noteq> []" "\<not> list_all isspace msg"
    and old: "old = (case sessions sv sid of
                       Some x \<Rightarrow> x
                     | None \<Rightarrow> \<lparr>session_id = sid, messages = [], summary = [], intents = [],
                                last_context = [], last_retrievals = [], vector_store_dir = None,
                                updated_at = fst (clock B (world sv))\<rparr>)"
    and old2: "old2 = old\<lparr>vector_store_dir :=
                        (if truthy (vector_store_dir old) then vector_store_dir old
                         else opt_vector_store_dir opts)\<rparr>"
    and sv2: "sv2 = put_session sid old2
                      (case sessions sv sid of Some x \<Rightarrow> sv | None \<Rightarrow> create_session B sid sv)"
    and r3: "r3 =
     (if flag (opt_enable_context opts) (enable_context cfg) \<and> truthy (opt_vector_store_dir opts)
         \<and> provider B \<noteq> None
      then
        (case provider_call (the (provider B)) (the (opt_vector_store_dir opts)) sid msg
                         (case opt_top_k opts of
                            None \<Rightarrow> context_top_k cfg
                          | Some k \<Rightarrow> if k \<noteq> 0 then k else context_top_k cfg) sv2
         of (r, sv') \<Rightarrow> (case r of Inr cr \<Rightarrow> (cr, sv') | Inl e \<Rightarrow> (([], []), sv')))
      else (([], []), sv2))"
    and x4: "x4 = append_message cfg old2 \<lparr>role = ''user'', content = msg\<rparr>"
    and e5: "e5 = enforce_prompt_budget B cfg sid
                          (build_prompt cfg x4 (fst (fst r3)) (opt_system_prompt opts))
                          (max_prompt_tokens cfg) (put_session sid x4 (snd r3))"
  shows "stream_chat B cfg sid msg opts sv =
          (Inr \<lparr>g_session = sid, g_message = msg, g_prompt_messages = fst (fst e5),
                  g_truncated = snd (fst e5), g_context_text = fst (fst r3),
                  g_retrievals = snd (fst r3),
                  g_enable_summarisation = opt_enable_summarisation opts,
                  g_enable_intent_tracking = opt_enable_intent_tracking opts,
                  g_assistant_reply = [], g_point = Start\<rparr>, snd e5)"
    and "sessions sv2 = (sessions sv)(sid \<mapsto> old2)"
    and "sessions (snd r3) = sessions sv2"
    and "world sv2 = (case sessions sv sid of Some x \<Rightarrow> world sv | None \<Rightarrow> snd (clock B (world sv)))"
    and "calls sv2 = calls sv"
proof -
  define sv1 where "sv1 = (case sessions sv sid of Some x \<Rightarrow> sv | None \<Rightarrow> create_session B sid sv)"
  have s1: "sessions sv1 = (sessions sv)(sid \<mapsto> old)"
    by (cases "sessions sv sid")
       (simp_all add: sv1_def old create_session_def put_session_def time_now_def fun_upd_idem
          split: prod.splits)
  have t1: "the_session sv1 sid = old" by (simp add: the_session_def s1)
  have sv2': "sv2 = put_session sid old2 sv1" by (simp add: sv2 sv1_def)
  show s2: "sessions sv2 = (sessions sv)(sid \<mapsto> old2)"
    by (simp add: sv2' put_session_def s1)
  show "world sv2 = (case sessions sv sid of Some x \<Rightarrow> world sv | None \<Rightarrow> snd (clock B (world sv)))"
    by (cases "sessions sv sid")
       (simp_all add: sv2 create_session_def put_session_def time_now_def split: prod.splits)
  show "calls sv2 = calls sv"
    by (cases "sessions sv sid")
       (simp_all add: sv2 create_session_def put_session_def time_now_def split: prod.splits)
  show s3: "sessions (snd r3) = sessions sv2"
    by (simp add: r3 provider_call_def Let_def split: prod.splits sum.splits)
  have t3: "the_session (snd r3) sid = old2" by (simp add: the_session_def s3 s2)
  have ne: "msg \<noteq> []" using v(2) by auto
  show "stream_chat B cfg sid msg opts sv =
          (Inr \<lparr>g_session = sid, g_message = msg, g_prompt_messages = fst (fst e5),
                  g_truncated = snd (fst e5), g_context_text = fst (fst r3),
                  g_retrievals = snd (fst r3),
                  g_enable_summarisation = opt_enable_summarisation opts,
                  g_enable_intent_tracking = opt_enable_intent_tracking opts,
                  g_assistant_reply = [], g_point = Start\<rparr>, snd e5)"
    using v ne
    unfolding stream_chat_def strip_empty_iff Let_def
      sv1_def [symmetric] t1 old2 [symmetric] sv2' [symmetric] r3 [symmetric]
    by (simp add: split_beta t3 x4 [symmetric] e5 [symmetric])
qed

lemma demo_call:
  "stream_chat demo_backend demo_config ''s1'' ''hi'' demo_options demo_service
     = (Inr demo_generator, demo_service_called)"
  by (simp add: service_defs Let_def demo_backend_def demo_config_def demo_options_def
        demo_service_def demo_session_def demo_generator_def demo_service_called_def)

lemma demo_pull_one:
  "pulls demo_backend demo_config (Suc 0) demo_generator demo_service_called
     = (([''Hel''], Suspended),
        demo_generator\<lparr>g_assistant_reply := ''Hel'', g_point := Streaming [''lo''] None\<rparr>,
        demo_service_called\<lparr>world := 101, calls := [CallStream (g_prompt_messages demo_generator)]\<rparr>)"
  by (simp add: generator_defs client_stream_def demo_generator_def
        demo_backend_def demo_service_called_def)

lemma stream_chat_returns_valid:
  assumes "stream_chat B cfg sid msg opts sv = (Inr g, sv1)"
  shows "sid \<noteq> []" and "\<not> list_all isspace msg"
  using assms by (auto simp: stream_chat_def strip_empty_iff split: if_splits)

lemma append_message_dir [simp]:
  "messages (append_message cfg (x\<lparr>vector_store_dir := d\<rparr>) m) = messages (append_message cfg x m)"
  by (simp add: append_message_def Let_def)

lemma append_message_fields [simp]:
  "intents (append_message cfg x m) = intents x"
  "summary (append_message cfg x m) = summary x"
  "last_context (append_message cfg x m) = last_context x"
  "last_retrievals (append_message cfg x m) = last_retrievals x"
  "updated_at (append_message cfg x m) = updated_at x"
  "vector_store_dir (append_message cfg x m) = vector_store_dir x"
  "session_id (append_message cfg x m) = session_id x"
  by (simp_all add: append_message_def Let_def)

lemma stream_chat_effect:
  assumes call: "stream_chat B cfg sid msg opts sv = (Inr g, sv1)"
    and old: "old = (case sessions sv sid of
                       Some x \<Rightarrow> x
                     | None \<Rightarrow> \<lparr>session_id = sid, messages = [], summary = [], intents = [],
                                last_context = [], last_retrievals = [], vector_store_dir = None,
                                updated_at = fst (clock B (world sv))\<rparr>)"
  shows "\<exists>t. sessions sv1 = (sessions sv)(sid \<mapsto>
              (append_message cfg
                 (old\<lparr>vector_store_dir :=
                        (if truthy (vector_store_dir old) then vector_store_dir old
                         else opt_vector_store_dir opts)\<rparr>)
                 \<lparr>role = ''user'', content = msg\<rparr>)\<lparr>summary := t\<rparr>)"
    and "g_session g = sid" and "g_message g = msg" and "g_point g = Start"
    and "g_assistant_reply g = []"
    and "g_enable_summarisation g = opt_enable_summarisation opts"
    and "g_enable_intent_tracking g = opt_enable_intent_tracking opts"
proof -
  note v = stream_chat_returns_valid [OF call]
  define old2 where "old2 = old\<lparr>vector_store_dir :=
                        (if truthy (vector_store_dir old) then vector_store_dir old
                         else opt_vector_store_dir opts)\<rparr>"
  define sv2 where "sv2 = put_session sid old2
                      (case sessions sv sid of Some x \<Rightarrow> sv | None \<Rightarrow> create_session B sid sv)"
  define r3 where "r3 =
     (if flag (opt_enable_context opts) (enable_context cfg) \<and> truthy (opt_vector_store_dir opts)
         \<and> provider B \<noteq> None
      then
        (case provider_call (the (provider B)) (the (opt_vector_store_dir opts)) sid msg
                         (case opt_top_k opts of
                            None \<Rightarrow> context_top_k cfg
                          | Some k \<Rightarrow> if k \<noteq> 0 then k else context_top_k cfg) sv2
         of (r, sv') \<Rightarrow> (case r of Inr cr \<Rightarrow> (cr, sv') | Inl e \<Rightarrow> (([], []), sv')))
      else (([], []), sv2))"
  define x4 where "x4 = append_message cfg old2 \<lparr>role = ''user'', content = msg\<rparr>"
  define e5 where "e5 = enforce_prompt_budget B cfg sid
                          (build_prompt cfg x4 (fst (fst r3)) (opt_system_prompt opts))
                          (max_prompt_tokens cfg) (put_session sid x4 (snd r3))"
  note u = stream_chat_unfold [OF v old old2_def sv2_def r3_def x4_def e5_def]
  from u(1) call have g: "g = \<lparr>g_session = sid, g_message = msg, g_prompt_messages = fst (fst e5),
                  g_truncated = snd (fst e5), g_context_text = fst (fst r3),
                  g_retrievals = snd (fst r3),
                  g_enable_summarisation = opt_enable_summarisation opts,
                  g_enable_intent_tracking = opt_enable_intent_tracking opts,
                  g_assistant_reply = [], g_point = Start\<rparr>" and s: "sv1 = snd e5"
    by simp_all
  show "g_session g = sid" "g_message g = msg" "g_point g = Start" "g_assistant_reply g = []"
    "g_enable_summarisation g = opt_enable_summarisation opts"
    "g_enable_intent_tracking g = opt_enable_intent_tracking opts"
    by (simp_all add: g)
  have s4: "sessions (put_session sid x4 (snd r3)) = (sessions sv)(sid \<mapsto> x4)"
    by (simp add: put_session_def u(2) u(3))
  then have "sessions (put_session sid x4 (snd r3)) sid = Some x4" by simp
  from enforce_prompt_budget_sessions [OF this, of B cfg
        "build_prompt cfg x4 (fst (fst r3)) (opt_system_prompt opts)" "max_prompt_tokens cfg"]
  obtain t where "sessions sv1 = (sessions sv)(sid \<mapsto> x4\<lparr>summary := t\<rparr>)"
    by (auto simp: e5_def s s4)
  then show "\<exists>t. sessions sv1 = (sessions sv)(sid \<mapsto>
              (append_message cfg
                 (old\<lparr>vector_store_dir :=
                        (if truthy (vector_store_dir old) then vector_store_dir old
                         else opt_vector_store_dir opts)\<rparr>)
                 \<lparr>role = ''user'', content = msg\<rparr>)\<lparr>summary := t\<rparr>)"
    unfolding x4_def old2_def by blast
qed

subsection \<open>Running a generator to its end\<close>

lemma open_stream_eq:
  "open_stream B cfg g sv =
     stream_step B cfg (fst (fst (llm_stream B (g_prompt_messages g) (world sv))))
       (snd (fst (llm_stream B (g_prompt_messages g) (world sv)))) g
       (snd (client_stream B (g_prompt_messages g) sv))"
  by (simp add: open_stream_def client_stream_def split_beta)

lemma stream_step_cons:
  "stream_step B cfg (t # ts) err g sv =
     ((Yield t, g\<lparr>g_assistant_reply := g_assistant_reply g @ t, g_point := Streaming ts err\<rparr>), sv)"
  by (simp add: stream_step_def)

lemma stream_step_nil:
  "fst (fst (stream_step B cfg [] err g sv)) =
     (case err of None \<Rightarrow> StopIteration | Some e \<Rightarrow> Raise e)"
  by (simp add: stream_step_def split: option.splits)

lemma gen_next_cons:
  assumes "remaining_output B g sv = t # ts"
  shows "\<exists>g' sv'. gen_next B cfg g sv = ((Yield t, g'), sv') \<and> remaining_output B g' sv' = ts \<and>
           pending_error B g' sv' = pending_error B g sv \<and> g_point g' \<noteq> Finished"
proof (cases "g_point g")
  case Start
  show ?thesis
  proof (cases "g_truncated g")
    case True
    then show ?thesis
      using assms Start
      by (simp add: remaining_output_def pending_error_def gen_next_def)
  next
    case False
    then show ?thesis
      using assms Start
      by (simp add: remaining_output_def pending_error_def gen_next_def open_stream_eq
            stream_step_cons)
  qed
next
  case AfterNotice
  then show ?thesis
    using assms
    by (simp add: remaining_output_def pending_error_def gen_next_def open_stream_eq
          stream_step_cons)
next
  case (Streaming us err)
  then show ?thesis
    using assms
    by (simp add: remaining_output_def pending_error_def gen_next_def stream_step_cons)
next
  case Finished
  then show ?thesis using assms by (simp add: remaining_output_def)
qed

lemma gen_next_nil:
  assumes "remaining_output B g sv = []" and "g_point g \<noteq> Finished"
  shows "fst (fst (gen_next B cfg g sv)) =
           (case pending_error B g sv of None \<Rightarrow> StopIteration | Some e \<Rightarrow> Raise e)"
proof (cases "g_point g")
  case Start
  then show ?thesis
    using assms
    by (simp add: remaining_output_def pending_error_def gen_next_def open_stream_eq
          stream_step_nil split: if_splits)
next
  case AfterNotice
  then show ?thesis
    using assms
    by (simp add: remaining_output_def pending_error_def gen_next_def open_stream_eq
          stream_step_nil)
next
  case (Streaming us err)
  then show ?thesis
    using assms
    by (simp add: remaining_output_def pending_error_def gen_next_def stream_step_nil)
next
  case Finished
  then show ?thesis using assms by simp
qed

lemma pulls_Suc_yield:
  "gen_next B cfg g sv = ((Yield t, g1), sv1) \<Longrightarrow> pulls B cfg n g1 sv1 = ((out, st), g2, sv2) \<Longrightarrow>
     pulls B cfg (Suc n) g sv = ((t # out, st), g2, sv2)"
  by simp

lemma pulls_run:
  "g_point g \<noteq> Finished \<Longrightarrow>
     fst (pulls B cfg (Suc (length (remaining_output B g sv))) g sv) =
       (remaining_output B g sv,
        case pending_error B g sv of None \<Rightarrow> Exhausted | Some e \<Rightarrow> Failed e)"
proof (induction "remaining_output B g sv" arbitrary: g sv)
  case Nil
  obtain r g1 sv1 where step: "gen_next B cfg g sv = ((r, g1), sv1)"
    by (metis prod.exhaust)
  have "r = (case pending_error B g sv of None \<Rightarrow> StopIteration | Some e \<Rightarrow> Raise e)"
    using gen_next_nil [of B g sv cfg] Nil step by simp
  then show ?case
    using Nil(1) [symmetric] step by (simp split: option.splits)
next
  case (Cons t ts)
  from gen_next_cons [OF Cons(2) [symmetric], of cfg] obtain g1 sv1 where
    step: "gen_next B cfg g sv = ((Yield t, g1), sv1)" and r: "remaining_output B g1 sv1 = ts"
    and p: "pending_error B g1 sv1 = pending_error B g sv" and f: "g_point g1 \<noteq> Finished"
    by blast
  have ih: "fst (pulls B cfg (Suc (length ts)) g1 sv1) =
          (ts, case pending_error B g sv of None \<Rightarrow> Exhausted | Some e \<Rightarrow> Failed e)"
    using Cons(1) [OF r [symmetric] f] unfolding r p .
  obtain out1 st1 g2 sv2 where P: "pulls B cfg (Suc (length ts)) g1 sv1 = ((out1, st1), g2, sv2)"
    by (metis prod.exhaust)
  have "pulls B cfg (Suc (Suc (length ts))) g sv = ((t # out1, st1), g2, sv2)"
    using step P by (rule pulls_Suc_yield)
  moreover have "out1 = ts" "st1 = (case pending_error B g sv of None \<Rightarrow> Exhausted | Some e \<Rightarrow> Failed e)"
    using ih unfolding P by simp_all
  ultimately show ?case
    unfolding Cons(2) [symmetric] by simp
qed

lemma pulls_failed:
  "pulls B cfg n g sv = ((out, Failed e), g', sv') \<Longrightarrow> pending_error B g sv = Some e"
proof (induction n arbitrary: g sv out)
  case 0
  then show ?case by simp
next
  case (Suc n)
  show ?case
  proof (cases "remaining_output B g sv")
    case Nil
    show ?thesis
    proof (cases "g_point g = Finished")
      case True
      then show ?thesis using Suc.prems by (simp add: gen_next_def)
    next
      case False
      from gen_next_nil [OF Nil False, of cfg] Suc.prems show ?thesis
        by (auto split: prod.splits pull.splits option.splits)
    qed
  next
    case (Cons t ts)
    from gen_next_cons [OF Cons, of cfg] obtain g1 sv1 where
      step: "gen_next B cfg g sv = ((Yield t, g1), sv1)"
      and p: "pending_error B g1 sv1 = pending_error B g sv"
      by blast
    then obtain out1 where "pulls B cfg n g1 sv1 = ((out1, Failed e), g', sv')"
      using Suc.prems by (auto split: prod.splits)
    then show ?thesis using Suc.IH p by auto
  qed
qed

subsection \<open>The history cap\<close>

lemma append_message_capped:
  assumes "1 \<le> max_history_messages cfg"
  shows "messages (append_message cfg x m) =
           drop (length (messages x @ [m]) - nat (max_history_messages cfg)) (messages x @ [m])"
  using assms by (simp add: append_message_def slice_from_def Let_def)

lemma recent_twice:
  assumes "1 \<le> n"
  shows "drop (length (drop (length (xs @ [u]) - n) (xs @ [u]) @ [a]) - n)
              (drop (length (xs @ [u]) - n) (xs @ [u]) @ [a])
           = drop (length (xs @ [u, a]) - n) (xs @ [u, a])"
proof (cases "length xs + 1 \<le> n")
  case True
  then show ?thesis by simp
next
  case False
  define ys where "ys = xs @ [u]"
  have ge: "n \<le> length ys" using False by (simp add: ys_def)
  define k where "k = length ys - n"
  have k: "length ys = k + n" using ge by (simp add: k_def)
  have two: "xs @ [u, a] = ys @ [a]" by (simp add: ys_def)
  have "drop (length (drop k ys @ [a]) - n) (drop k ys @ [a]) = drop 1 (drop k ys @ [a])"
    by (simp add: k)
  also have "\<dots> = drop 1 (drop k ys) @ [a]"
    using assms by (simp add: k)
  also have "\<dots> = drop (Suc k) ys @ [a]"
    by simp
  finally have lhs: "drop (length (drop k ys @ [a]) - n) (drop k ys @ [a]) = drop (Suc k) ys @ [a]" .
  have "drop (length (ys @ [a]) - n) (ys @ [a]) = drop (Suc k) (ys @ [a])"
    by (simp add: k)
  also have "\<dots> = drop (Suc k) ys @ [a]"
    using assms by (simp add: k)
  finally have rhs: "drop (length (ys @ [a]) - n) (ys @ [a]) = drop (Suc k) ys @ [a]" .
  show ?thesis
    unfolding two ys_def [symmetric] k_def [symmetric] using lhs rhs by simp
qed

text \<open>
  The cap for caps of at least one.  When \<open>max_history_messages\<close> is at least one,
  a turn that is consumed to its end leaves, whatever the history was before: after the
  call, the last \<open>max_history_messages\<close> of the old messages followed by the user
  message; after the commit, the last \<open>max_history_messages\<close> of that followed by
  the assistant reply, which is the same as the last \<open>max_history_messages\<close> of the
  old messages followed by both new ones, in their order.  The history is then no longer
  than the cap.  Since the old history is arbitrary, this holds after every turn of a
  sequence.
\<close>

theorem history_cap_after_turn:
  assumes cap: "1 \<le> max_history_messages cfg"
      and call: "stream_chat B cfg sid msg opts sv = (Inr g, sv1)"
      and run: "pulls B cfg n g sv1 = ((out, Exhausted), g', sv2)"
      and before: "ms = (case sessions sv sid of Some x \<Rightarrow> messages x | None \<Rightarrow> [])"
      and user: "u = \<lparr>role = ''user'', content = msg\<rparr>"
      and reply: "a = \<lparr>role = ''assistant'', content = concat out\<rparr>"
  shows "messages (the_session sv1 sid)
           = drop (length (ms @ [u]) - nat (max_history_messages cfg)) (ms @ [u]) \<and>
         messages (the_session sv2 sid)
           = drop (length (messages (the_session sv1 sid) @ [a]) - nat (max_history_messages cfg))
               (messages (the_session sv1 sid) @ [a]) \<and>
         messages (the_session sv2 sid)
           = drop (length (ms @ [u, a]) - nat (max_history_messages cfg)) (ms @ [u, a]) \<and>
         int (length (messages (the_session sv2 sid))) \<le> max_history_messages cfg"
proof -
  define old where "old = (case sessions sv sid of
                       Some x \<Rightarrow> x
                     | None \<Rightarrow> \<lparr>session_id = sid, messages = [], summary = [], intents = [],
                                last_context = [], last_retrievals = [], vector_store_dir = None,
                                updated_at = fst (clock B (world sv))\<rparr>)"
  have ms: "messages old = ms"
    by (simp add: old_def before split: option.splits)
  note e = stream_chat_effect [OF call old_def]
  from e(1) obtain y1 where y1: "sessions sv1 sid = Some y1"
    and m1: "messages y1 = messages (append_message cfg old u)"
    by (auto simp: user)
  have a1: "messages (the_session sv1 sid)
           = drop (length (ms @ [u]) - nat (max_history_messages cfg)) (ms @ [u])"
    using y1 m1 by (simp add: the_session_def append_message_capped [OF cap] ms)
  from pulls_exhausted_finalize [OF run] e(4) obtain sv0 where
    s0: "sessions sv0 = sessions sv1"
    and f: "sv2 = finalize B cfg (g\<lparr>g_assistant_reply := g_assistant_reply g @ concat out\<rparr>) sv0"
    by auto
  define g2 where "g2 = g\<lparr>g_assistant_reply := g_assistant_reply g @ concat out\<rparr>"
  have "sessions sv0 (g_session g2) = Some y1"
    by (simp add: g2_def e(2) s0 y1)
  from finalize_session [OF this, of B cfg] obtain y2 where
    y2: "sessions sv2 sid = Some y2"
    and m2: "messages y2 = messages (append_message cfg y1 a)"
    by (auto simp: f g2_def e(2) e(5) reply)
  have a2: "messages (the_session sv2 sid)
           = drop (length (messages (the_session sv1 sid) @ [a]) - nat (max_history_messages cfg))
               (messages (the_session sv1 sid) @ [a])"
    using y2 m2 y1 by (simp add: the_session_def append_message_capped [OF cap])
  have n: "1 \<le> nat (max_history_messages cfg)" using cap by simp
  have a3: "messages (the_session sv2 sid)
           = drop (length (ms @ [u, a]) - nat (max_history_messages cfg)) (ms @ [u, a])"
    unfolding a2 a1 by (rule recent_twice [OF n])
  have "length (messages (the_session sv2 sid)) \<le> nat (max_history_messages cfg)"
    unfolding a3 by simp
  then have a4: "int (length (messages (the_session sv2 sid))) \<le> max_history_messages cfg"
    using cap by linarith
  show ?thesis using a1 a2 a3 a4 by blast
qed

lemma demo_pull_all:
  "fst (pulls demo_backend demo_config (Suc (Suc (Suc 0))) demo_generator demo_service_called)
     = ([''Hel'', ''lo''], Exhausted)"
  by (simp add: generator_defs client_stream_def demo_generator_def demo_backend_def
        demo_service_called_def Let_def)

lemma cap2_call:
  "stream_chat demo_backend cap2_config ''s1'' ''hi'' demo_options demo_service
     = (Inr cap2_generator, cap2_service_called)"
  by (simp add: service_defs Let_def demo_backend_def cap2_config_def demo_config_def
        demo_options_def demo_service_def demo_session_def cap2_generator_def
        cap2_service_called_def)

lemma cap2_pull_all:
  "fst (pulls demo_backend cap2_config (Suc (Suc (Suc 0))) cap2_generator cap2_service_called)
     = ([''Hel'', ''lo''], Exhausted)"
  by (simp add: generator_defs client_stream_def cap2_generator_def demo_backend_def
        cap2_service_called_def Let_def)

theorem history_cap_after_turn_witness:
  "messages (the_session cap2_service_called ''s1'')
     = [\<lparr>role = ''assistant'', content = ''first answer''\<rparr>,
        \<lparr>role = ''user'', content = ''hi''\<rparr>] \<and>
   messages (the_session
      (snd (snd (pulls demo_backend cap2_config (Suc (Suc (Suc 0))) cap2_generator cap2_service_called)))
      ''s1'')
     = [\<lparr>role = ''user'', content = ''hi''\<rparr>,
        \<lparr>role = ''assistant'', content = ''Hello''\<rparr>] \<and>
   int (length (messages (the_session
      (snd (snd (pulls demo_backend cap2_config (Suc (Suc (Suc 0))) cap2_generator cap2_service_called)))
      ''s1''))) \<le> max_history_messages cap2_config"
proof -
  have cap: "1 \<le> max_history_messages cap2_config" by (simp add: cap2_config_def)
  have run: "pulls demo_backend cap2_config (Suc (Suc (Suc 0))) cap2_generator cap2_service_called
    = (([''Hel'', ''lo''], Exhausted),
       fst (snd (pulls demo_backend cap2_config (Suc (Suc (Suc 0))) cap2_generator cap2_service_called)),
       snd (snd (pulls demo_backend cap2_config (Suc (Suc (Suc 0))) cap2_generator cap2_service_called)))"
    using cap2_pull_all by (simp add: prod_eq_iff)
  show ?thesis
    using history_cap_after_turn [OF cap cap2_call run refl refl refl]
    by (simp add: demo_service_def demo_session_def cap2_config_def)
qed

text \<open>
  C2.  After each committed turn the history should hold at most
  \<open>max_history_messages\<close> messages, the most recent ones.  With a cap of zero the code
  does not do this: the length test sends it into the trimming branch, but
  \<open>messages[-0:]\<close> is the whole list, so nothing is dropped and one turn on a new
  session leaves two messages where the cap allows none.
\<close>

theorem history_cap_zero_failing_input:
  "max_history_messages zero_config = 0 \<and>
   stream_chat demo_backend zero_config ''s'' ''a'' demo_options empty_service
     = (Inr zero_generator, zero_service_called) \<and>
   fst (pulls demo_backend zero_config (Suc (Suc (Suc 0))) zero_generator zero_service_called)
     = ([''Hel'', ''lo''], Exhausted) \<and>
   messages (the_session
      (snd (snd (pulls demo_backend zero_config (Suc (Suc (Suc 0))) zero_generator zero_service_called)))
      ''s'')
     = [\<lparr>role = ''user'', content = ''a''\<rparr>, \<lparr>role = ''assistant'', content = ''Hello''\<rparr>] \<and>
   \<not> int (length (messages (the_session
      (snd (snd (pulls demo_backend zero_config (Suc (Suc (Suc 0))) zero_generator zero_service_called)))
      ''s''))) \<le> max_history_messages zero_config"
proof -
  have a: "stream_chat demo_backend zero_config ''s'' ''a'' demo_options empty_service
     = (Inr zero_generator, zero_service_called)"
    by (simp add: service_defs Let_def demo_backend_def zero_config_def demo_config_def
          demo_options_def empty_service_def zero_generator_def zero_service_called_def)
  have b: "fst (pulls demo_backend zero_config (Suc (Suc (Suc 0))) zero_generator zero_service_called)
     = ([''Hel'', ''lo''], Exhausted)"
    by (simp add: generator_defs client_stream_def zero_generator_def demo_backend_def
          zero_service_called_def Let_def)
  have c: "messages (the_session
      (snd (snd (pulls demo_backend zero_config (Suc (Suc (Suc 0))) zero_generator zero_service_called)))
      ''s'')
     = [\<lparr>role = ''user'', content = ''a''\<rparr>, \<lparr>role = ''assistant'', content = ''Hello''\<rparr>]"
    by (simp add: generator_defs service_defs zero_generator_def demo_backend_def
          zero_service_called_def zero_config_def demo_config_def Let_def)
  show ?thesis
    using a b c by (simp add: zero_config_def)
qed

subsection \<open>The truncation notice\<close>

lemma tight_call:
  "stream_chat demo_backend tight_config ''s1'' ''hi'' demo_options demo_service
     = (Inr tight_generator, tight_service_called)"
  by (simp add: service_defs Let_def demo_backend_def tight_config_def demo_config_def
        demo_options_def demo_service_def demo_session_def tight_generator_def
        tight_service_called_def)

lemma tight_pull_all:
  "fst (pulls demo_backend tight_config (Suc (Suc (Suc (Suc 0)))) tight_generator tight_service_called)
     = ([notice, ''Hel'', ''lo''], Exhausted)"
  by (simp add: gen_next_def open_stream_def stream_step_def client_stream_def
        tight_generator_def demo_backend_def tight_service_called_def Let_def)

lemma append_message_last:
  assumes "0 \<le> max_history_messages cfg"
  shows "messages (append_message cfg x m) \<noteq> [] \<and> last (messages (append_message cfg x m)) = m"
proof (cases "max_history_messages cfg = 0")
  case True
  then show ?thesis by (simp add: append_message_def slice_from_def Let_def)
next
  case False
  then have "1 \<le> nat (max_history_messages cfg)" using assms by simp
  then have "length (messages x) + 1 - nat (max_history_messages cfg) < length (messages x @ [m])"
    by simp
  then show ?thesis
    using assms False
    by (simp add: append_message_def slice_from_def Let_def)
qed

lemma pulls_first_notice:
  assumes "g_point g = Start" and "g_truncated g"
    and "pulls B cfg (Suc n) g sv = ((out, st), g', sv')"
  shows "\<exists>rest. out = notice # rest"
  using assms by (auto simp: gen_next_def split: prod.splits)

lemma truncated_run_notice:
  assumes call: "stream_chat B cfg sid msg opts sv = (Inr g, sv1)"
      and trunc: "g_truncated g"
  shows "gen_next B cfg g sv1
           = ((Yield notice, g\<lparr>g_assistant_reply := notice, g_point := AfterNotice\<rparr>), sv1) \<and>
         (\<forall>n out st g' sv2. pulls B cfg (Suc n) g sv1 = ((out, st), g', sv2) \<longrightarrow>
            (\<exists>rest. out = notice # rest)) \<and>
         (\<forall>n out g' sv2. pulls B cfg n g sv1 = ((out, Exhausted), g', sv2) \<longrightarrow>
            (\<exists>rest. out = notice # rest \<and>
               messages (the_session sv2 sid)
                 = messages (append_message cfg (the_session sv1 sid)
                               \<lparr>role = ''assistant'', content = notice @ concat rest\<rparr>) \<and>
               (0 \<le> max_history_messages cfg \<longrightarrow>
                  messages (the_session sv2 sid) \<noteq> [] \<and>
                  last (messages (the_session sv2 sid))
                    = \<lparr>role = ''assistant'', content = notice @ concat rest\<rparr>)))"
proof -
  note e = stream_chat_effect [OF call refl]
  have first: "gen_next B cfg g sv1
           = ((Yield notice, g\<lparr>g_assistant_reply := notice, g_point := AfterNotice\<rparr>), sv1)"
    using trunc e(4) e(5) by (simp add: gen_next_def)
  have second: "\<exists>rest. out = notice # rest"
    if "pulls B cfg (Suc n) g sv1 = ((out, st), g', sv2)" for n out st g' sv2
    using pulls_first_notice [OF e(4) trunc that] .
  have third: "\<exists>rest. out = notice # rest \<and>
               messages (the_session sv2 sid)
                 = messages (append_message cfg (the_session sv1 sid)
                               \<lparr>role = ''assistant'', content = notice @ concat rest\<rparr>) \<and>
               (0 \<le> max_history_messages cfg \<longrightarrow>
                  messages (the_session sv2 sid) \<noteq> [] \<and>
                  last (messages (the_session sv2 sid))
                    = \<lparr>role = ''assistant'', content = notice @ concat rest\<rparr>)"
    if run: "pulls B cfg n g sv1 = ((out, Exhausted), g', sv2)" for n out g' sv2
  proof -
    obtain m where n: "n = Suc m" using run by (cases n) simp_all
    from second run n obtain rest where out: "out = notice # rest" by blast
    from e(1) obtain y1 where y1: "sessions sv1 sid = Some y1" by auto
    from pulls_exhausted_finalize [OF run] e(4) obtain sv0 where
      s0: "sessions sv0 = sessions sv1"
      and f: "sv2 = finalize B cfg (g\<lparr>g_assistant_reply := g_assistant_reply g @ concat out\<rparr>) sv0"
      by auto
    define g2 where "g2 = g\<lparr>g_assistant_reply := g_assistant_reply g @ concat out\<rparr>"
    have "sessions sv0 (g_session g2) = Some y1"
      by (simp add: g2_def e(2) s0 y1)
    from finalize_session [OF this, of B cfg] obtain y2 where
      y2: "sessions sv2 sid = Some y2"
      and m2: "messages y2 = messages (append_message cfg y1
                 \<lparr>role = ''assistant'', content = notice @ concat rest\<rparr>)"
      by (auto simp: f g2_def e(2) e(5) out)
    have a: "messages (the_session sv2 sid)
                 = messages (append_message cfg (the_session sv1 sid)
                               \<lparr>role = ''assistant'', content = notice @ concat rest\<rparr>)"
      using y2 m2 y1 by (simp add: the_session_def)
    show ?thesis
      using out a append_message_last [of cfg "the_session sv1 sid"
          "\<lparr>role = ''assistant'', content = notice @ concat rest\<rparr>"]
      by auto
  qed
  show ?thesis
    using first second third by blast
qed


subsection \<open>When a call is over budget\<close>

lemma stream_chat_budget:
  assumes call: "stream_chat B cfg sid msg opts sv = (Inr g, sv1)"
  shows "g_truncated g \<longleftrightarrow>
           0 < max_prompt_tokens cfg \<and>
           max_prompt_tokens cfg
             < (\<Sum>m\<leftarrow>assembled_prompt B cfg sid msg opts sv. max 1 (int (length (content m)) div 4))"
    and "sessions sv sid = Some x \<Longrightarrow> \<not> g_truncated g \<or> summary x \<noteq> [] \<Longrightarrow>
           summary (the_session sv1 sid) = summary x"
proof -
  note v = stream_chat_returns_valid [OF call]
  define old where "old = (case sessions sv sid of
                       Some x \<Rightarrow> x
                     | None \<Rightarrow> \<lparr>session_id = sid, messages = [], summary = [], intents = [],
                                last_context = [], last_retrievals = [], vector_store_dir = None,
                                updated_at = fst (clock B (world sv))\<rparr>)"
  define old2 where "old2 = old\<lparr>vector_store_dir :=
                        (if truthy (vector_store_dir old) then vector_store_dir old
                         else opt_vector_store_dir opts)\<rparr>"
  define sv0 where "sv0 = (case sessions sv sid of Some x \<Rightarrow> sv | None \<Rightarrow> create_session B sid sv)"
  define sv2 where "sv2 = put_session sid old2
                      (case sessions sv sid of Some x \<Rightarrow> sv | None \<Rightarrow> create_session B sid sv)"
  define r3 where "r3 =
     (if flag (opt_enable_context opts) (enable_context cfg) \<and> truthy (opt_vector_store_dir opts)
         \<and> provider B \<noteq> None
      then
        (case provider_call (the (provider B)) (the (opt_vector_store_dir opts)) sid msg
                         (case opt_top_k opts of
                            None \<Rightarrow> context_top_k cfg
                          | Some k \<Rightarrow> if k \<noteq> 0 then k else context_top_k cfg) sv2
         of (r, sv') \<Rightarrow> (case r of Inr cr \<Rightarrow> (cr, sv') | Inl e \<Rightarrow> (([], []), sv')))
      else (([], []), sv2))"
  define x4 where "x4 = append_message cfg old2 \<lparr>role = ''user'', content = msg\<rparr>"
  define P where "P = build_prompt cfg x4 (fst (fst r3)) (opt_system_prompt opts)"
  define e5 where "e5 = enforce_prompt_budget B cfg sid
                          (build_prompt cfg x4 (fst (fst r3)) (opt_system_prompt opts))
                          (max_prompt_tokens cfg) (put_session sid x4 (snd r3))"
  note u = stream_chat_unfold [OF v old_def old2_def sv2_def r3_def x4_def e5_def]
  have s0: "sessions sv0 = (sessions sv)(sid \<mapsto> old)"
    by (cases "sessions sv sid")
       (simp_all add: sv0_def old_def create_session_def put_session_def time_now_def fun_upd_idem
          split: prod.splits)
  have t0: "the_session sv0 sid = old" by (simp add: the_session_def s0)
  have sv2': "sv2 = put_session sid old2 sv0" by (simp add: sv2_def sv0_def)
  have t3: "the_session (snd r3) sid = old2" by (simp add: the_session_def u(2) u(3))
  have ap: "assembled_prompt B cfg sid msg opts sv = P"
    unfolding assembled_prompt_def Let_def
      sv0_def [symmetric] t0 old2_def [symmetric] sv2' [symmetric] r3_def [symmetric]
    by (simp add: split_beta t3 x4_def [symmetric] P_def)
  from u(1) call have g: "g_truncated g = snd (fst e5)" and s: "sv1 = snd e5"
    by auto
  have tr: "snd (fst e5) \<longleftrightarrow>
           0 < max_prompt_tokens cfg \<and>
           max_prompt_tokens cfg < (\<Sum>m\<leftarrow>P. max 1 (int (length (content m)) div 4))"
    by (auto simp: e5_def P_def enforce_prompt_budget_def Let_def estimate_tokens_def)
  show "g_truncated g \<longleftrightarrow>
           0 < max_prompt_tokens cfg \<and>
           max_prompt_tokens cfg
             < (\<Sum>m\<leftarrow>assembled_prompt B cfg sid msg opts sv. max 1 (int (length (content m)) div 4))"
    unfolding ap g by (rule tr)
  show "summary (the_session sv1 sid) = summary x"
    if x: "sessions sv sid = Some x" and c: "\<not> g_truncated g \<or> summary x \<noteq> []"
  proof -
    have ox: "old = x" using x by (simp add: old_def)
    have sx: "summary x4 = summary x" by (simp add: x4_def old2_def ox)
    have "snd e5 = put_session sid x4 (snd r3)"
    proof (cases "g_truncated g")
      case False
      then show ?thesis
        using g by (auto simp: e5_def enforce_prompt_budget_def Let_def split: if_splits)
    next
      case True
      then have "summary x \<noteq> []" using c by simp
      then show ?thesis
        by (simp add: e5_def enforce_prompt_budget_def Let_def ensure_summary_def sx)
    qed
    then show ?thesis by (simp add: s sx)
  qed
qed

subsection \<open>Commit on full consumption\<close>

text \<open>
  C1 (as amended).  A consumer that stops after any number of elements, while the
  generator is still suspended, leaves the session dictionary exactly as the call of
  \<open>stream_chat\<close> returned it, and \<open>get_history\<close> answers as it did when the call
  returned.  For a session that existed before the call it shows the old messages with
  only the user message appended (and capped), and the old intents, last context, last
  retrievals and \<open>updated_at\<close>.  The summary is the old one when the old summary was
  not empty or the assembled prompt was within the budget; otherwise the call itself,
  before any element is consumed, has asked the completion client for a summary.
\<close>

theorem abandoned_stream_commits_nothing:
  assumes call: "stream_chat B cfg sid msg opts sv = (Inr g, sv1)"
      and run: "pulls B cfg n g sv1 = ((out, Suspended), g', sv2)"
  shows "sessions sv2 = sessions sv1 \<and> get_history sv2 sid = get_history sv1 sid \<and>
         (\<forall>x. sessions sv sid = Some x \<longrightarrow>
            (\<exists>y. get_history sv2 sid = Inr y \<and>
                 messages y = messages (append_message cfg x \<lparr>role = ''user'', content = msg\<rparr>) \<and>
                 intents y = intents x \<and> last_context y = last_context x \<and>
                 last_retrievals y = last_retrievals x \<and> updated_at y = updated_at x \<and>
                 (summary x \<noteq> [] \<or> max_prompt_tokens cfg \<le> 0 \<or>
                  (\<Sum>m\<leftarrow>assembled_prompt B cfg sid msg opts sv. max 1 (int (length (content m)) div 4))
                    \<le> max_prompt_tokens cfg
                  \<longrightarrow> summary y = summary x)))"
proof -
  have same: "sessions sv2 = sessions sv1"
    using run by (rule pulls_suspended_sessions)
  have "\<exists>y. get_history sv2 sid = Inr y \<and>
                 messages y = messages (append_message cfg x \<lparr>role = ''user'', content = msg\<rparr>) \<and>
                 intents y = intents x \<and> last_context y = last_context x \<and>
                 last_retrievals y = last_retrievals x \<and> updated_at y = updated_at x \<and>
                 (summary x \<noteq> [] \<or> max_prompt_tokens cfg \<le> 0 \<or>
                  (\<Sum>m\<leftarrow>assembled_prompt B cfg sid msg opts sv. max 1 (int (length (content m)) div 4))
                    \<le> max_prompt_tokens cfg
                  \<longrightarrow> summary y = summary x)"
    if x: "sessions sv sid = Some x" for x
  proof -
    have "x = (case sessions sv sid of
                       Some x \<Rightarrow> x
                     | None \<Rightarrow> \<lparr>session_id = sid, messages = [], summary = [], intents = [],
                                last_context = [], last_retrievals = [], vector_store_dir = None,
                                updated_at = fst (clock B (world sv))\<rparr>)"
      using x by simp
    from stream_chat_effect(1) [OF call this] obtain t where
      y: "sessions sv1 sid = Some ((append_message cfg
                 (x\<lparr>vector_store_dir :=
                        (if truthy (vector_store_dir x) then vector_store_dir x
                         else opt_vector_store_dir opts)\<rparr>)
                 \<lparr>role = ''user'', content = msg\<rparr>)\<lparr>summary := t\<rparr>)"
      by auto
    have "summary (the_session sv1 sid) = summary x"
      if "summary x \<noteq> [] \<or> max_prompt_tokens cfg \<le> 0 \<or>
                  (\<Sum>m\<leftarrow>assembled_prompt B cfg sid msg opts sv. max 1 (int (length (content m)) div 4))
                    \<le> max_prompt_tokens cfg"
    proof -
      have "\<not> g_truncated g \<or> summary x \<noteq> []"
        using that stream_chat_budget(1) [OF call] by auto
      then show ?thesis by (rule stream_chat_budget(2) [OF call x])
    qed
    then show ?thesis
      using y by (simp add: get_history_def same the_session_def)
  qed
  then show ?thesis
    using same by (simp add: get_history_def)
qed

theorem abandoned_stream_commits_nothing_witness:
  "sessions (snd (snd (pulls demo_backend demo_config (Suc 0) demo_generator demo_service_called)))
     = sessions demo_service_called \<and>
   get_history (snd (snd (pulls demo_backend demo_config (Suc 0) demo_generator demo_service_called))) ''s1''
     = Inr (demo_session\<lparr>messages := messages demo_session @ [\<lparr>role = ''user'', content = ''hi''\<rparr>]\<rparr>)"
  using abandoned_stream_commits_nothing [OF demo_call demo_pull_one]
  unfolding demo_pull_one
  by (simp add: get_history_def demo_service_called_def)

text \<open>
  C1 as stated fails for the summary: under a budget of five units the call for a
  session with an empty summary stores the summary \<open>recap\<close> before it returns, and
  a stream of which nothing is consumed leaves it there.
\<close>

theorem abandoned_stream_summary_counterexample:
  "get_history demo_service ''s1'' = Inr demo_session \<and> summary demo_session = [] \<and>
   stream_chat demo_backend tight_config ''s1'' ''hi'' demo_options demo_service
     = (Inr tight_generator, tight_service_called) \<and>
   pulls demo_backend tight_config 0 tight_generator tight_service_called
     = (([], Suspended), tight_generator, tight_service_called) \<and>
   get_history tight_service_called ''s1''
     = Inr (demo_session\<lparr>messages := messages demo_session @ [\<lparr>role = ''user'', content = ''hi''\<rparr>],
                         summary := ''recap''\<rparr>)"
  using tight_call
  by (simp add: get_history_def demo_service_def demo_session_def tight_service_called_def)

subsection \<open>The truncation notice, from the budget\<close>

lemma stream_chat_valid:
  assumes "sid \<noteq> []" and "\<not> list_all isspace msg"
  shows "\<exists>g sv1. stream_chat B cfg sid msg opts sv = (Inr g, sv1)"
  using stream_chat_unfold(1) [OF assms refl refl refl refl refl refl, of B cfg opts sv] by blast

lemma negative_call:
  "stream_chat demo_backend negative_config ''s1'' ''hi'' long_prompt_options demo_service
     = (Inr negative_generator, negative_service_called)"
  by (simp add: service_defs Let_def demo_backend_def negative_config_def tight_config_def
        demo_config_def long_prompt_options_def demo_options_def demo_service_def
        demo_session_def negative_generator_def negative_service_called_def)

lemma negative_over_budget:
  "(\<Sum>m\<leftarrow>assembled_prompt demo_backend negative_config ''s1'' ''hi'' long_prompt_options
            demo_service. max 1 (int (length (content m)) div 4)) = 6"
  by (simp add: assembled_prompt_def service_defs Let_def demo_backend_def negative_config_def
        tight_config_def demo_config_def long_prompt_options_def demo_options_def
        demo_service_def demo_session_def)

lemma tight_over_budget:
  "(\<Sum>m\<leftarrow>assembled_prompt demo_backend tight_config ''s1'' ''hi'' demo_options
            demo_service. max 1 (int (length (content m)) div 4)) = 8"
  by (simp add: assembled_prompt_def service_defs Let_def demo_backend_def
        tight_config_def demo_config_def demo_options_def demo_service_def demo_session_def)

text \<open>
  C4 (as amended).  For a valid call whose assembled prompt costs more than a positive
  \<open>max_prompt_tokens\<close>: the first \<open>next\<close> of the returned generator yields the
  fixed notice without calling the completion client or changing the service, so every
  run that receives an element receives the notice first; when the run reaches the end,
  the assistant message handed to \<open>_append_message\<close> is the notice followed by the
  fragments received; and when \<open>max_history_messages\<close> is at least one, that message
  is the last one of the history.
\<close>

theorem truncation_notice_first:
  assumes v: "sid \<noteq> []" "\<not> list_all isspace msg"
      and over: "0 < max_prompt_tokens cfg"
        "max_prompt_tokens cfg
           < (\<Sum>m\<leftarrow>assembled_prompt B cfg sid msg opts sv. max 1 (int (length (content m)) div 4))"
  shows "\<exists>g sv1. stream_chat B cfg sid msg opts sv = (Inr g, sv1) \<and>
         gen_next B cfg g sv1
           = ((Yield notice, g\<lparr>g_assistant_reply := notice, g_point := AfterNotice\<rparr>), sv1) \<and>
         (\<forall>n out st g' sv2. pulls B cfg (Suc n) g sv1 = ((out, st), g', sv2) \<longrightarrow>
            (\<exists>rest. out = notice # rest)) \<and>
         (\<forall>n out g' sv2. pulls B cfg n g sv1 = ((out, Exhausted), g', sv2) \<longrightarrow>
            (\<exists>rest. out = notice # rest \<and>
               messages (the_session sv2 sid)
                 = messages (append_message cfg (the_session sv1 sid)
                               \<lparr>role = ''assistant'', content = notice @ concat rest\<rparr>) \<and>
               (1 \<le> max_history_messages cfg \<longrightarrow>
                  messages (the_session sv2 sid) \<noteq> [] \<and>
                  last (messages (the_session sv2 sid))
                    = \<lparr>role = ''assistant'', content = notice @ concat rest\<rparr>)))"
proof -
  from stream_chat_valid [OF v] obtain g sv1 where
    call: "stream_chat B cfg sid msg opts sv = (Inr g, sv1)" by blast
  have trunc: "g_truncated g"
    using stream_chat_budget(1) [OF call] over by simp
  note r = truncated_run_notice [OF call trunc]
  have "gen_next B cfg g sv1
           = ((Yield notice, g\<lparr>g_assistant_reply := notice, g_point := AfterNotice\<rparr>), sv1)"
    using r by blast
  moreover have "\<forall>n out st g' sv2. pulls B cfg (Suc n) g sv1 = ((out, st), g', sv2) \<longrightarrow>
            (\<exists>rest. out = notice # rest)"
    using r by blast
  moreover have "\<forall>n out g' sv2. pulls B cfg n g sv1 = ((out, Exhausted), g', sv2) \<longrightarrow>
            (\<exists>rest. out = notice # rest \<and>
               messages (the_session sv2 sid)
                 = messages (append_message cfg (the_session sv1 sid)
                               \<lparr>role = ''assistant'', content = notice @ concat rest\<rparr>) \<and>
               (1 \<le> max_history_messages cfg \<longrightarrow>
                  messages (the_session sv2 sid) \<noteq> [] \<and>
                  last (messages (the_session sv2 sid))
                    = \<lparr>role = ''assistant'', content = notice @ concat rest\<rparr>))"
  proof (intro allI impI)
    fix n out g' sv2
    assume run: "pulls B cfg n g sv1 = ((out, Exhausted), g', sv2)"
    from r run obtain rest where
      o: "out = notice # rest"
      and m: "messages (the_session sv2 sid)
                 = messages (append_message cfg (the_session sv1 sid)
                               \<lparr>role = ''assistant'', content = notice @ concat rest\<rparr>)"
      and l: "0 \<le> max_history_messages cfg \<longrightarrow>
                  messages (the_session sv2 sid) \<noteq> [] \<and>
                  last (messages (the_session sv2 sid))
                    = \<lparr>role = ''assistant'', content = notice @ concat rest\<rparr>"
      by blast
    show "\<exists>rest. out = notice # rest \<and>
               messages (the_session sv2 sid)
                 = messages (append_message cfg (the_session sv1 sid)
                               \<lparr>role = ''assistant'', content = notice @ concat rest\<rparr>) \<and>
               (1 \<le> max_history_messages cfg \<longrightarrow>
                  messages (the_session sv2 sid) \<noteq> [] \<and>
                  last (messages (the_session sv2 sid))
                    = \<lparr>role = ''assistant'', content = notice @ concat rest\<rparr>)"
      using o m l by (intro exI [of _ rest]) simp
  qed
  ultimately show ?thesis using call by blast
qed

theorem truncation_notice_first_witness:
  "fst (fst (gen_next demo_backend tight_config tight_generator tight_service_called))
     = Yield ''Note: Some earlier conversation was truncated to fit the context window. '' \<and>
   snd (gen_next demo_backend tight_config tight_generator tight_service_called)
     = tight_service_called \<and>
   last (messages (the_session
      (snd (snd (pulls demo_backend tight_config (Suc (Suc (Suc (Suc 0)))) tight_generator
                   tight_service_called))) ''s1''))
     = \<lparr>role = ''assistant'',
        content = ''Note: Some earlier conversation was truncated to fit the context window. Hello''\<rparr>"
proof -
  have v: "''s1'' \<noteq> []" "\<not> list_all isspace ''hi''" by (simp_all add: isspace_def)
  have o: "0 < max_prompt_tokens tight_config"
    "max_prompt_tokens tight_config
       < (\<Sum>m\<leftarrow>assembled_prompt demo_backend tight_config ''s1'' ''hi'' demo_options
            demo_service. max 1 (int (length (content m)) div 4))"
    unfolding tight_over_budget by (simp_all add: tight_config_def)
  have run: "pulls demo_backend tight_config (Suc (Suc (Suc (Suc 0)))) tight_generator tight_service_called
    = (([notice, ''Hel'', ''lo''], Exhausted),
       fst (snd (pulls demo_backend tight_config (Suc (Suc (Suc (Suc 0)))) tight_generator
                   tight_service_called)),
       snd (snd (pulls demo_backend tight_config (Suc (Suc (Suc (Suc 0)))) tight_generator
                   tight_service_called)))"
    using tight_pull_all by (simp add: prod_eq_iff)
  have cap: "1 \<le> max_history_messages tight_config"
    by (simp add: tight_config_def demo_config_def)
  from truncation_notice_first [OF v o, unfolded tight_call]
  have first: "gen_next demo_backend tight_config tight_generator tight_service_called
           = ((Yield notice, tight_generator\<lparr>g_assistant_reply := notice, g_point := AfterNotice\<rparr>),
              tight_service_called)"
    and third: "\<exists>rest. [notice, ''Hel'', ''lo''] = notice # rest \<and>
        (1 \<le> max_history_messages tight_config \<longrightarrow>
           last (messages (the_session
               (snd (snd (pulls demo_backend tight_config (Suc (Suc (Suc (Suc 0)))) tight_generator
                   tight_service_called))) ''s1''))
             = \<lparr>role = ''assistant'', content = notice @ concat rest\<rparr>)"
    using run by blast+
  from third cap show ?thesis
    unfolding first by (auto simp: notice_def)
qed

text \<open>
  C4 as stated fails under a negative cap: the turn is truncated and consumed to its
  end, the notice is the first element, and the history is empty afterwards, so no
  reply is recorded.
\<close>

theorem truncation_notice_negative_cap_counterexample:
  "0 < max_prompt_tokens negative_config \<and>
   max_prompt_tokens negative_config
     < (\<Sum>m\<leftarrow>assembled_prompt demo_backend negative_config ''s1'' ''hi'' long_prompt_options
            demo_service. max 1 (int (length (content m)) div 4)) \<and>
   stream_chat demo_backend negative_config ''s1'' ''hi'' long_prompt_options demo_service
     = (Inr negative_generator, negative_service_called) \<and>
   fst (pulls demo_backend negative_config (Suc (Suc (Suc (Suc 0)))) negative_generator
          negative_service_called)
     = ([''Note: Some earlier conversation was truncated to fit the context window. '',
         ''Hel'', ''lo''], Exhausted) \<and>
   messages (the_session
      (snd (snd (pulls demo_backend negative_config (Suc (Suc (Suc (Suc 0)))) negative_generator
                   negative_service_called))) ''s1'') = []"
proof -
  have a: "0 < max_prompt_tokens negative_config"
    "max_prompt_tokens negative_config
     < (\<Sum>m\<leftarrow>assembled_prompt demo_backend negative_config ''s1'' ''hi'' long_prompt_options
            demo_service. max 1 (int (length (content m)) div 4))"
    unfolding negative_over_budget by (simp_all add: negative_config_def tight_config_def)
  have b: "fst (pulls demo_backend negative_config (Suc (Suc (Suc (Suc 0)))) negative_generator
          negative_service_called)
     = ([''Note: Some earlier conversation was truncated to fit the context window. '',
         ''Hel'', ''lo''], Exhausted)"
    by (simp add: generator_defs client_stream_def negative_generator_def demo_backend_def
          negative_service_called_def Let_def)
  have c: "messages (the_session
      (snd (snd (pulls demo_backend negative_config (Suc (Suc (Suc (Suc 0)))) negative_generator
                   negative_service_called))) ''s1'') = []"
    by (simp add: generator_defs service_defs negative_generator_def demo_backend_def
          negative_service_called_def negative_config_def tight_config_def demo_config_def
          demo_session_def Let_def)
  show ?thesis using a b c negative_call by simp
qed

subsection \<open>When the retrieval provider is called\<close>

lemma refresh_summary_calls:
  "\<exists>cs. calls (refresh_summary B cfg sid sv) = calls sv @ map CallComplete cs"
proof -
  have "calls (refresh_summary B cfg sid sv) = calls sv @ map CallComplete
          [[system_message (summarise_prompt cfg),
            \<lparr>role = ''user'', content = messages_as_text (messages (the_session sv sid))\<rparr>]]"
    by (simp add: refresh_summary_def client_complete_def put_session_def Let_def
          split: prod.splits sum.splits)
  then show ?thesis by blast
qed

lemma enforce_prompt_budget_calls:
  "\<exists>cs. calls (snd (enforce_prompt_budget B cfg sid p mt sv)) = calls sv @ map CallComplete cs"
proof -
  have "snd (enforce_prompt_budget B cfg sid p mt sv) = sv \<or>
        snd (enforce_prompt_budget B cfg sid p mt sv) = refresh_summary B cfg sid sv"
    by (simp add: enforce_prompt_budget_def ensure_summary_def Let_def)
  moreover have "calls sv = calls sv @ map CallComplete []" by simp
  ultimately show ?thesis
    using refresh_summary_calls [of B cfg sid sv] by metis
qed

lemma stream_chat_calls:
  assumes v: "sid \<noteq> []" "\<not> list_all isspace msg"
  shows "\<exists>cs. calls (snd (stream_chat B cfg sid msg opts sv)) =
           calls sv
           @ (if flag (opt_enable_context opts) (enable_context cfg)
                 \<and> truthy (opt_vector_store_dir opts) \<and> provider B \<noteq> None
              then [CallRetrieval (the (opt_vector_store_dir opts)) sid msg
                      (case opt_top_k opts of
                         None \<Rightarrow> context_top_k cfg
                       | Some k \<Rightarrow> if k \<noteq> 0 then k else context_top_k cfg)]
              else [])
           @ map CallComplete cs"
proof -
  define old where "old = (case sessions sv sid of
                       Some x \<Rightarrow> x
                     | None \<Rightarrow> \<lparr>session_id = sid, messages = [], summary = [], intents = [],
                                last_context = [], last_retrievals = [], vector_store_dir = None,
                                updated_at = fst (clock B (world sv))\<rparr>)"
  define old2 where "old2 = old\<lparr>vector_store_dir :=
                        (if truthy (vector_store_dir old) then vector_store_dir old
                         else opt_vector_store_dir opts)\<rparr>"
  define sv2 where "sv2 = put_session sid old2
                      (case sessions sv sid of Some x \<Rightarrow> sv | None \<Rightarrow> create_session B sid sv)"
  define r3 where "r3 =
     (if flag (opt_enable_context opts) (enable_context cfg) \<and> truthy (opt_vector_store_dir opts)
         \<and> provider B \<noteq> None
      then
        (case provider_call (the (provider B)) (the (opt_vector_store_dir opts)) sid msg
                         (case opt_top_k opts of
                            None \<Rightarrow> context_top_k cfg
                          | Some k \<Rightarrow> if k \<noteq> 0 then k else context_top_k cfg) sv2
         of (r, sv') \<Rightarrow> (case r of Inr cr \<Rightarrow> (cr, sv') | Inl e \<Rightarrow> (([], []), sv')))
      else (([], []), sv2))"
  define x4 where "x4 = append_message cfg old2 \<lparr>role = ''user'', content = msg\<rparr>"
  define e5 where "e5 = enforce_prompt_budget B cfg sid
                          (build_prompt cfg x4 (fst (fst r3)) (opt_system_prompt opts))
                          (max_prompt_tokens cfg) (put_session sid x4 (snd r3))"
  note u = stream_chat_unfold [OF v old_def old2_def sv2_def r3_def x4_def e5_def]
  have c3: "calls (snd r3) = calls sv
           @ (if flag (opt_enable_context opts) (enable_context cfg)
                 \<and> truthy (opt_vector_store_dir opts) \<and> provider B \<noteq> None
              then [CallRetrieval (the (opt_vector_store_dir opts)) sid msg
                      (case opt_top_k opts of
                         None \<Rightarrow> context_top_k cfg
                       | Some k \<Rightarrow> if k \<noteq> 0 then k else context_top_k cfg)]
              else [])"
    by (simp add: r3_def provider_call_def u(5) split: prod.splits sum.splits)
  have c4: "calls (put_session sid x4 (snd r3)) = calls (snd r3)"
    by (simp add: put_session_def)
  from enforce_prompt_budget_calls [of B cfg sid
        "build_prompt cfg x4 (fst (fst r3)) (opt_system_prompt opts)" "max_prompt_tokens cfg"
        "put_session sid x4 (snd r3)"]
  obtain cs where "calls (snd e5) = calls (snd r3) @ map CallComplete cs"
    by (auto simp: e5_def c4)
  then show ?thesis
    unfolding u(1) c3 by auto
qed




subsection \<open>Effects of the call itself\<close>

text \<open>
  C9 (as amended).  A valid call returns a generator that is still at its start, and the
  service state it returns already has: the session (created when it was unseen); the
  store directory bound to it, the old one when one was bound and else the one of the
  call; the retrieval call logged when context is enabled, the call supplies a
  directory and a provider is configured; and the user message appended to the old
  messages under the cap.  A consumer that takes any number of elements, also none, and
  stops while the generator is suspended finds exactly these messages in
  \<open>get_history\<close>; when \<open>max_history_messages\<close> is at least one the user message is
  the last of them.
\<close>

theorem eager_pre_turn_effects:
  assumes v: "sid \<noteq> []" "\<not> list_all isspace msg"
    and old: "old = (case sessions sv sid of
                       Some x \<Rightarrow> x
                     | None \<Rightarrow> \<lparr>session_id = sid, messages = [], summary = [], intents = [],
                                last_context = [], last_retrievals = [], vector_store_dir = None,
                                updated_at = fst (clock B (world sv))\<rparr>)"
    and u: "u = \<lparr>role = ''user'', content = msg\<rparr>"
  shows "\<exists>g sv1 y cs.
           stream_chat B cfg sid msg opts sv = (Inr g, sv1) \<and> g_point g = Start \<and>
           sessions sv1 sid = Some y \<and>
           messages y = messages (append_message cfg old u) \<and>
           vector_store_dir y = (if truthy (vector_store_dir old) then vector_store_dir old
                                 else opt_vector_store_dir opts) \<and>
           calls sv1 =
             calls sv
             @ (if flag (opt_enable_context opts) (enable_context cfg)
                   \<and> truthy (opt_vector_store_dir opts) \<and> provider B \<noteq> None
                then [CallRetrieval (the (opt_vector_store_dir opts)) sid msg
                        (case opt_top_k opts of
                           None \<Rightarrow> context_top_k cfg
                         | Some k \<Rightarrow> if k \<noteq> 0 then k else context_top_k cfg)]
                else [])
             @ map CallComplete cs \<and>
           (\<forall>n out g' sv2. pulls B cfg n g sv1 = ((out, Suspended), g', sv2) \<longrightarrow>
              (\<exists>h. get_history sv2 sid = Inr h \<and>
                   messages h = messages (append_message cfg old u) \<and>
                   (1 \<le> max_history_messages cfg \<longrightarrow>
                      messages h \<noteq> [] \<and> last (messages h) = u)))"
proof -
  from stream_chat_valid [OF v] obtain g sv1 where
    call: "stream_chat B cfg sid msg opts sv = (Inr g, sv1)" by blast
  note e = stream_chat_effect [OF call old]
  from e(1) obtain y where y: "sessions sv1 sid = Some y"
    and my: "messages y = messages (append_message cfg old u)"
    and dy: "vector_store_dir y = (if truthy (vector_store_dir old) then vector_store_dir old
                                 else opt_vector_store_dir opts)"
    by (auto simp: u)
  from stream_chat_calls [OF v, of B cfg opts sv] obtain cs where
    cs: "calls sv1 =
             calls sv
             @ (if flag (opt_enable_context opts) (enable_context cfg)
                   \<and> truthy (opt_vector_store_dir opts) \<and> provider B \<noteq> None
                then [CallRetrieval (the (opt_vector_store_dir opts)) sid msg
                        (case opt_top_k opts of
                           None \<Rightarrow> context_top_k cfg
                         | Some k \<Rightarrow> if k \<noteq> 0 then k else context_top_k cfg)]
                else [])
             @ map CallComplete cs"
    unfolding call by auto
  have last: "messages y \<noteq> [] \<and> last (messages y) = u" if "1 \<le> max_history_messages cfg"
    unfolding my using append_message_last [of cfg old u] that by simp
  have ab: "\<forall>n out g' sv2. pulls B cfg n g sv1 = ((out, Suspended), g', sv2) \<longrightarrow>
              (\<exists>h. get_history sv2 sid = Inr h \<and>
                   messages h = messages (append_message cfg old u) \<and>
                   (1 \<le> max_history_messages cfg \<longrightarrow>
                      messages h \<noteq> [] \<and> last (messages h) = u))"
  proof (intro allI impI)
    fix n out g' sv2
    assume "pulls B cfg n g sv1 = ((out, Suspended), g', sv2)"
    then have "sessions sv2 = sessions sv1" by (rule pulls_suspended_sessions)
    then have "get_history sv2 sid = Inr y" using y by (simp add: get_history_def)
    then show "\<exists>h. get_history sv2 sid = Inr h \<and>
                   messages h = messages (append_message cfg old u) \<and>
                   (1 \<le> max_history_messages cfg \<longrightarrow>
                      messages h \<noteq> [] \<and> last (messages h) = u)"
      using my last by blast
  qed
  show ?thesis
    using call e(4) y my dy cs ab by blast
qed

theorem eager_pre_turn_effects_witness:
  "(\<exists>cs. calls (snd (stream_chat demo_backend cap2_config ''s1'' ''hi'' located_options demo_service))
          = CallRetrieval ''other'' ''s1'' ''hi'' 4 # map CallComplete cs) \<and>
   (\<exists>h. get_history (snd (stream_chat demo_backend cap2_config ''s1'' ''hi'' located_options
                             demo_service)) ''s1'' = Inr h \<and>
        messages h = [\<lparr>role = ''assistant'', content = ''first answer''\<rparr>,
                      \<lparr>role = ''user'', content = ''hi''\<rparr>] \<and>
        last (messages h) = \<lparr>role = ''user'', content = ''hi''\<rparr> \<and>
        vector_store_dir h = Some ''store'')"
proof -
  have v: "''s1'' \<noteq> []" "\<not> list_all isspace ''hi''" by (simp_all add: isspace_def)
  have cap: "1 \<le> max_history_messages cap2_config" by (simp add: cap2_config_def)
  from eager_pre_turn_effects [where B = demo_backend and sv = demo_service and cfg = cap2_config
         and opts = located_options, OF v refl refl]
  obtain g sv1 y cs where
    call: "stream_chat demo_backend cap2_config ''s1'' ''hi'' located_options demo_service = (Inr g, sv1)"
    and my: "messages y = messages (append_message cap2_config demo_session
                                      \<lparr>role = ''user'', content = ''hi''\<rparr>)"
    and dy: "vector_store_dir y = Some ''store''"
    and cs: "calls sv1 = CallRetrieval ''other'' ''s1'' ''hi'' 4 # map CallComplete cs"
    and ab: "\<forall>n out g' sv2. pulls demo_backend cap2_config n g sv1 = ((out, Suspended), g', sv2) \<longrightarrow>
              (\<exists>h. get_history sv2 ''s1'' = Inr h \<and>
                   messages h = messages (append_message cap2_config demo_session
                                            \<lparr>role = ''user'', content = ''hi''\<rparr>) \<and>
                   (1 \<le> max_history_messages cap2_config \<longrightarrow>
                      messages h \<noteq> [] \<and> last (messages h) = \<lparr>role = ''user'', content = ''hi''\<rparr>))"
      and y: "sessions sv1 ''s1'' = Some y"
    by (simp add: demo_service_def demo_session_def flag_def located_options_def demo_options_def
          cap2_config_def demo_config_def demo_backend_def) blast
  have "pulls demo_backend cap2_config 0 g sv1 = (([], Suspended), g, sv1)" by simp
  with ab cap obtain h where
    h: "get_history sv1 ''s1'' = Inr h"
      "messages h = messages (append_message cap2_config demo_session
                                \<lparr>role = ''user'', content = ''hi''\<rparr>)"
      "last (messages h) = \<lparr>role = ''user'', content = ''hi''\<rparr>"
    by blast
  have hy: "h = y" using h(1) y by (simp add: get_history_def)
  have m: "messages (append_message cap2_config demo_session \<lparr>role = ''user'', content = ''hi''\<rparr>)
             = [\<lparr>role = ''assistant'', content = ''first answer''\<rparr>,
                \<lparr>role = ''user'', content = ''hi''\<rparr>]"
    by (simp add: append_message_def slice_from_def cap2_config_def demo_session_def)
  show ?thesis
    unfolding call using cs h dy hy m by auto
qed

text \<open>
  C9 as stated fails under a negative cap: the call returns, nothing is consumed, and
  the history shown by \<open>get_history\<close> is empty, so the user message is not visible.
\<close>

theorem user_message_dropped_negative_cap_counterexample:
  "stream_chat demo_backend negative_config ''s1'' ''hi'' long_prompt_options demo_service
     = (Inr negative_generator, negative_service_called) \<and>
   pulls demo_backend negative_config 0 negative_generator negative_service_called
     = (([], Suspended), negative_generator, negative_service_called) \<and>
   get_history negative_service_called ''s1''
     = Inr (demo_session\<lparr>messages := [], summary := ''recap''\<rparr>)"
  using negative_call
  by (simp add: get_history_def negative_service_called_def)

end
